theory Spec2Isabelle
  imports Main "HOL-Library.Multiset" "HOL-Library.List_Lexorder" "HOL-Library.Char_ord"
begin

section \<open>The syntax tree that go/parser hands to the classifier\<close>

text \<open>
  Only the parts of go/ast that internal/shader/shader.go inspects are represented.
  Type expressions (the \<open>Type\<close> of a field or of a value spec, possibly nil) are kept
  abstract as the type variable \<open>'e\<close>: the code only ever passes them to \<open>parseType\<close>.
\<close>

datatype ObjKind = Bad | Pkg | Con | Typ | Var | Fun | Lbl

text \<open>The names go/ast prints for an object kind (\<open>ObjKind.String\<close>).\<close>

fun ObjKind_String :: "ObjKind \<Rightarrow> string" where
  "ObjKind_String Bad = ''bad''"
| "ObjKind_String Pkg = ''package''"
| "ObjKind_String Con = ''const''"
| "ObjKind_String Typ = ''type''"
| "ObjKind_String Var = ''var''"
| "ObjKind_String Fun = ''func''"
| "ObjKind_String Lbl = ''label''"

text \<open>The kinds a basic literal can have, and the names go/token prints for them.\<close>

datatype Token = token_INT | token_FLOAT | token_IMAG | token_CHAR | token_STRING

fun Token_String :: "Token \<Rightarrow> string" where
  "Token_String token_INT = ''INT''"
| "Token_String token_FLOAT = ''FLOAT''"
| "Token_String token_IMAG = ''IMAG''"
| "Token_String token_CHAR = ''CHAR''"
| "Token_String token_STRING = ''STRING''"

text \<open>
  An initializer expression: a basic literal with its kind and its text, or any other
  expression (the code falls into the \<open>default\<close> branch of its type switch for those).
\<close>

datatype Expr = BasicLit Token string | OtherExpr

record 'e Field =
  Field_Names :: "string list"
  Field_Type :: "'e"
  Field_Tag :: "string option"

record 'e ValueSpec =
  ValueSpec_Names :: "string list"
  ValueSpec_Type :: "'e"
  ValueSpec_Values :: "Expr list"

text \<open>The \<open>Type\<close> of a type spec: a struct type with its field list, or anything else.\<close>

datatype 'e TypeSpecType = StructType "'e Field list" | NotStructType

datatype 'e Decl = TypeSpec "'e TypeSpecType" | ValueSpecDecl "'e ValueSpec" | OtherDecl

record 'e Object =
  Kind :: ObjKind
  Name :: string
  Decl :: "'e Decl"

text \<open>
  \<open>f.Scope.Objects\<close> is a Go map from names to objects. It is represented by the list of
  its entries; \<open>distinct (map fst (Scope_Objects f))\<close> says that the list is a map.
\<close>

record 'e File =
  Scope_Objects :: "(string \<times> 'e Object) list"

section \<open>The type system used by the classifier\<close>

text \<open>
  The file that declares \<open>typ\<close>, \<open>parseType\<close>, \<open>typVec4\<close>, \<open>numeric\<close> and the
  \<open>String\<close> method of \<open>typ\<close> is not among the sources. The classifier is therefore
  modelled over an arbitrary type system, passed as the record below; \<open>typZero\<close> is the
  zero value of \<open>typ\<close>, which \<open>&Shader{}\<close> stores in the position variable. An error
  returned by \<open>parseType\<close> is represented by its message (\<open>err.Error()\<close>).
\<close>

record ('e, 't) types =
  parseType :: "'e \<Rightarrow> string + 't"
  numeric :: "'t \<Rightarrow> bool"
  typVec4 :: "'t"
  typString :: "'t \<Rightarrow> string"
  typZero :: "'t"

section \<open>shader.go\<close>

definition varyingStructName :: string where
  "varyingStructName = ''VertexOut''"

text \<open>
  \<open>kageTagRe\<close> is the regular expression \<^verbatim>\<open>^`kage:\"(.+)\"`$\<close>. It is anchored at both
  ends, so a tag matches exactly when it is a backtick, \<open>kage:\<close>, a double quote, a
  non-empty group, a double quote and a backtick; the dot does not match a newline.
  \<open>kageTagRe_FindStringSubmatch\<close> returns the group \<open>m[1]\<close> of a match, and \<open>None\<close> when
  \<open>FindStringSubmatch\<close> returns nil.
\<close>

definition kageTagRe_prefix :: string where
  "kageTagRe_prefix = CHR 0x60 # ''kage:'' @ [CHR 0x22]"

definition kageTagRe_suffix :: string where
  "kageTagRe_suffix = [CHR 0x22, CHR 0x60]"

definition kageTagRe_FindStringSubmatch :: "string \<Rightarrow> string option" where
  "kageTagRe_FindStringSubmatch tag =
     (let n = length tag; m1 = take (n - 9) (drop 7 tag)
      in if 10 \<le> n \<and> take 7 tag = kageTagRe_prefix \<and> drop (n - 2) tag = kageTagRe_suffix
            \<and> CHR 0x0A \<notin> set m1
         then Some m1 else None)"

record 't variable =
  name :: string
  "typ" :: "'t"
  "constant" :: bool
  init :: string

record 't Shader =
  position :: "'t variable"
  varyings :: "'t variable list"
  uniforms :: "'t variable list"
  globals :: "'t variable list"
  errs :: "string list"

text \<open>The value \<open>&Shader{}\<close> that \<open>NewShader\<close> starts from.\<close>

definition emptyShader :: "('e, 't) types \<Rightarrow> 't Shader" where
  "emptyShader T =
     \<lparr>position = \<lparr>name = [], typ = typZero T, constant = False, init = []\<rparr>,
      varyings = [], uniforms = [], globals = [], errs = []\<rparr>"

definition addError :: "'t Shader \<Rightarrow> string \<Rightarrow> 't Shader" where
  "addError s str = s\<lparr>errs := errs s @ [str]\<rparr>"

text \<open>The body of the loop over \<open>s.Fields.List\<close> in \<open>parseVaryingStruct\<close>.\<close>

definition parseVaryingField :: "('e, 't) types \<Rightarrow> 'e Field \<Rightarrow> 't Shader \<Rightarrow> 't Shader" where
  "parseVaryingField T f sh =
     (case Field_Tag f of
        Some tag \<Rightarrow>
          (case kageTagRe_FindStringSubmatch tag of
             None \<Rightarrow> addError sh (''invalid struct tag: '' @ tag)
           | Some m1 \<Rightarrow>
               if m1 \<noteq> ''position'' then
                 addError sh (''struct tag value must be position in '' @ varyingStructName
                              @ '' but '' @ m1)
               else if length (Field_Names f) \<noteq> 1 then
                 addError sh ''position members must be one''
               else
                 (case parseType T (Field_Type f) of
                    Inl err \<Rightarrow> addError sh err
                  | Inr t \<Rightarrow>
                      if t \<noteq> typVec4 T then
                        addError sh (''position must be vec4 but '' @ typString T t)
                      else
                        sh\<lparr>position :=
                             \<lparr>name = Field_Names f ! 0, typ = t, constant = False, init = []\<rparr>\<rparr>))
      | None \<Rightarrow>
          (case parseType T (Field_Type f) of
             Inl err \<Rightarrow> addError sh err
           | Inr t \<Rightarrow>
               if \<not> numeric T t then
                 addError sh (''members in '' @ varyingStructName @ '' must be numeric but ''
                              @ typString T t)
               else
                 sh\<lparr>varyings := varyings sh
                      @ map (\<lambda>n. \<lparr>name = n, typ = t, constant = False, init = []\<rparr>)
                          (Field_Names f)\<rparr>))"

fun parseVaryingFields :: "('e, 't) types \<Rightarrow> 'e Field list \<Rightarrow> 't Shader \<Rightarrow> 't Shader" where
  "parseVaryingFields T [] sh = sh"
| "parseVaryingFields T (f # fs) sh = parseVaryingFields T fs (parseVaryingField T f sh)"

text \<open>
  The functions that can panic return an option: \<open>None\<close> is a run-time panic of the Go
  code. \<open>parseVaryingStruct\<close> panics when the type assertion \<open>obj.Decl.(*ast.TypeSpec)\<close>
  fails.
\<close>

definition parseVaryingStruct :: "('e, 't) types \<Rightarrow> 'e Object \<Rightarrow> 't Shader \<Rightarrow> 't Shader option" where
  "parseVaryingStruct T obj sh =
     (if Kind obj \<noteq> Typ then
        Some (addError sh (Name obj @ '' must be a type but '' @ ObjKind_String (Kind obj)))
      else
        (case Decl obj of
           TypeSpec t \<Rightarrow>
             (case t of
                StructType fs \<Rightarrow> Some (parseVaryingFields T fs sh)
              | NotStructType \<Rightarrow> Some (addError sh (Name obj @ '' must be a struct but not'')))
         | _ \<Rightarrow> None))"

text \<open>
  \<open>parsePackageLevelVariable\<close> compares the first byte of the name with \<open>'A'\<close> and
  \<open>'Z'\<close>; indexing an empty name panics.
\<close>

definition parsePackageLevelVariable ::
    "('e, 't) types \<Rightarrow> string \<Rightarrow> 'e Object \<Rightarrow> 't Shader \<Rightarrow> 't Shader option" where
  "parsePackageLevelVariable T nm obj s =
     (case Decl obj of
        ValueSpecDecl v \<Rightarrow>
          (case parseType T (ValueSpec_Type v) of
             Inl err \<Rightarrow> Some (addError s err)
           | Inr t \<Rightarrow>
               (let val = \<lparr>name = nm, typ = t, constant = False, init = []\<rparr>
                in case nm of
                     [] \<Rightarrow> None
                   | c # _ \<Rightarrow>
                       if CHR ''A'' \<le> c \<and> c \<le> CHR ''Z''
                       then Some (s\<lparr>uniforms := uniforms s @ [val]\<rparr>)
                       else Some (s\<lparr>globals := globals s @ [val]\<rparr>)))
      | _ \<Rightarrow> Some (addError s ''value spec expected''))"

text \<open>
  The loop \<open>for i, v := range vs.Values\<close> of \<open>parsePackageLevelConstant\<close>. The second
  argument is \<open>vs.Names[i:]\<close> and the third \<open>vs.Values[i:]\<close>: reading \<open>vs.Names[i]\<close>
  beyond the end of \<open>vs.Names\<close> panics, and a literal that is neither INT nor FLOAT
  records a diagnostic and returns from the function.
\<close>

fun parseConstantValues ::
    "string \<Rightarrow> 't \<Rightarrow> string list \<Rightarrow> Expr list \<Rightarrow> 't Shader \<Rightarrow> 't Shader option" where
  "parseConstantValues nm t ns [] s = Some s"
| "parseConstantValues nm t [] (v # vs) s = None"
| "parseConstantValues nm t (n # ns) (v # vs) s =
     (if n \<noteq> nm then parseConstantValues nm t ns vs s
      else
        (case v of
           BasicLit k val \<Rightarrow>
             if k \<noteq> token_INT \<and> k \<noteq> token_FLOAT then
               Some (addError s (''literal must be int or float but '' @ Token_String k))
             else
               parseConstantValues nm t ns vs
                 (s\<lparr>globals := globals s @ [\<lparr>name = nm, typ = t, constant = True, init = val\<rparr>]\<rparr>)
         | OtherExpr \<Rightarrow>
             parseConstantValues nm t ns vs
               (s\<lparr>globals := globals s @ [\<lparr>name = nm, typ = t, constant = True, init = []\<rparr>]\<rparr>)))"

definition parsePackageLevelConstant ::
    "('e, 't) types \<Rightarrow> string \<Rightarrow> 'e Object \<Rightarrow> 't Shader \<Rightarrow> 't Shader option" where
  "parsePackageLevelConstant T nm obj s =
     (case Decl obj of
        ValueSpecDecl vs \<Rightarrow>
          (case parseType T (ValueSpec_Type vs) of
             Inl err \<Rightarrow> Some (addError s err)
           | Inr t \<Rightarrow> parseConstantValues nm t (ValueSpec_Names vs) (ValueSpec_Values vs) s)
      | _ \<Rightarrow> Some (addError s ''value spec expected''))"

text \<open>The body of the loop of \<open>parse\<close>: the switch on the name and on the object kind.\<close>

definition parseObject ::
    "('e, 't) types \<Rightarrow> string \<Rightarrow> 'e Object \<Rightarrow> 't Shader \<Rightarrow> 't Shader option" where
  "parseObject T nm obj s =
     (if nm = varyingStructName then parseVaryingStruct T obj s
      else
        (case Kind obj of
           Con \<Rightarrow> parsePackageLevelConstant T nm obj s
         | Var \<Rightarrow> parsePackageLevelVariable T nm obj s
         | _ \<Rightarrow> Some s))"

text \<open>
  \<open>parse\<close> ranges over the map \<open>f.Scope.Objects\<close>. Go leaves the iteration order of a
  map unspecified, so the order in which one run visits the entries is an argument:
  \<open>parse T entries s\<close> visits \<open>entries\<close> from left to right.
\<close>

fun parse :: "('e, 't) types \<Rightarrow> (string \<times> 'e Object) list \<Rightarrow> 't Shader \<Rightarrow> 't Shader option" where
  "parse T [] s = Some s"
| "parse T ((nm, obj) # rest) s =
     (case parseObject T nm obj s of
        None \<Rightarrow> None
      | Some s' \<Rightarrow> parse T rest s')"

text \<open>The comparison function that \<open>NewShader\<close> gives to \<open>sort.Slice\<close>.\<close>

definition name_less :: "'t variable \<Rightarrow> 't variable \<Rightarrow> bool" where
  "name_less a b = (name a < name b)"

text \<open>What a call of \<open>NewShader\<close> can do: return a shader, return an error, or panic.\<close>

datatype 't Outcome =
    ReturnsShader "'t Shader"
  | ReturnsParseError "string list"
  | ReturnsSyntaxError string
  | Panics

text \<open>
  \<open>NewShader\<close> depends on three things outside the repository, which are arguments:
  \<open>ParseFile\<close> is go/parser on the source bytes (an error message, or the file);
  \<open>rangeOrder\<close> is the order in which this run's \<open>range\<close> statement visits the entries
  of the scope map; \<open>sortSlice\<close> is \<open>sort.Slice\<close> with the comparison function it is
  given.
\<close>

definition NewShader ::
    "('src \<Rightarrow> string + 'e File) \<Rightarrow> ((string \<times> 'e Object) list \<Rightarrow> (string \<times> 'e Object) list)
      \<Rightarrow> (('t variable \<Rightarrow> 't variable \<Rightarrow> bool) \<Rightarrow> 't variable list \<Rightarrow> 't variable list)
      \<Rightarrow> ('e, 't) types \<Rightarrow> 'src \<Rightarrow> 't Outcome" where
  "NewShader ParseFile rangeOrder sortSlice T src =
     (case ParseFile src of
        Inl err \<Rightarrow> ReturnsSyntaxError err
      | Inr f \<Rightarrow>
          (case parse T (rangeOrder (Scope_Objects f)) (emptyShader T) of
             None \<Rightarrow> Panics
           | Some s \<Rightarrow>
               if length (errs s) > 0 then ReturnsParseError (errs s)
               else ReturnsShader
                      (s\<lparr>varyings := sortSlice name_less (varyings s),
                         uniforms := sortSlice name_less (uniforms s),
                         globals := sortSlice name_less (globals s)\<rparr>)))"

text \<open>\<open>strings.Join\<close>.\<close>

fun strings_Join :: "string list \<Rightarrow> string \<Rightarrow> string" where
  "strings_Join [] sep = []"
| "strings_Join [x] sep = x"
| "strings_Join (x # y # ys) sep = x @ sep @ strings_Join (y # ys) sep"

definition Dump_global :: "('e, 't) types \<Rightarrow> 't variable \<Rightarrow> string" where
  "Dump_global T g =
     (let prefix = (if constant g then ''const'' else ''var'');
          ini = (if init g \<noteq> [] then '' = '' @ init g else [])
      in prefix @ '' '' @ name g @ '' '' @ typString T (typ g) @ ini)"

definition Dump_lines :: "('e, 't) types \<Rightarrow> 't Shader \<Rightarrow> string list" where
  "Dump_lines T s =
     [''var '' @ name (position s) @ '' varying '' @ typString T (typ (position s))
        @ '' // position'']
     @ map (\<lambda>v. ''var '' @ name v @ '' varying '' @ typString T (typ v)) (varyings s)
     @ map (\<lambda>u. ''var '' @ name u @ '' uniform '' @ typString T (typ u)) (uniforms s)
     @ map (Dump_global T) (globals s)"

definition Dump :: "('e, 't) types \<Rightarrow> 't Shader \<Rightarrow> string" where
  "Dump T s = strings_Join (Dump_lines T s) [CHR 0x0A] @ [CHR 0x0A]"

section \<open>A concrete type system\<close>

text \<open>
  Modelled from the spec: the type system (\<open>typ\<close>, \<open>parseType\<close>, \<open>numeric\<close>, the names
  of the types), whose source file is missing. The spec's closed enumeration is float,
  int, boolean, vec2, vec3, vec4 and the matrices mat2, mat3, mat4; its resolver
  recognises exactly these and answers "unexpected type: <spelling>" otherwise; its
  numeric predicate is true for all but the non-numeric types, of which boolean is the
  only one here. The spec does not say which type is the zero value; float, the first
  of its enumeration, is taken. This instance is used for concrete runs only: every
  theorem below holds for an arbitrary type system \<open>T\<close>.
\<close>

datatype kage_typ = TFloat | TInt | TBool | TVec2 | TVec3 | TVec4 | TMat2 | TMat3 | TMat4

fun kage_typ_name :: "kage_typ \<Rightarrow> string" where
  "kage_typ_name TFloat = ''float''"
| "kage_typ_name TInt = ''int''"
| "kage_typ_name TBool = ''bool''"
| "kage_typ_name TVec2 = ''vec2''"
| "kage_typ_name TVec3 = ''vec3''"
| "kage_typ_name TVec4 = ''vec4''"
| "kage_typ_name TMat2 = ''mat2''"
| "kage_typ_name TMat3 = ''mat3''"
| "kage_typ_name TMat4 = ''mat4''"

definition kage_resolve :: "string \<Rightarrow> string + kage_typ" where
  "kage_resolve x =
     (case find (\<lambda>t. kage_typ_name t = x)
             [TFloat, TInt, TBool, TVec2, TVec3, TVec4, TMat2, TMat3, TMat4] of
        Some t \<Rightarrow> Inr t
      | None \<Rightarrow> Inl (''unexpected type: '' @ x))"

definition kage_types :: "(string, kage_typ) types" where
  "kage_types =
     \<lparr>parseType = kage_resolve, numeric = (\<lambda>t. t \<noteq> TBool), typVec4 = TVec4,
      typString = kage_typ_name, typZero = TFloat\<rparr>"

text \<open>The struct tag with the value \<open>v\<close>, as the scanner delivers it: \<^verbatim>\<open>`kage:"v"`\<close>.\<close>

definition kage_tag :: "string \<Rightarrow> string" where
  "kage_tag v = kageTagRe_prefix @ v @ kageTagRe_suffix"

section \<open>Notions used to state the properties\<close>

text \<open>
  Follows the wording of the claims about the position: a field of the vertex-out
  struct passes all position checks when it carries a well-formed tag whose value is
  \<open>position\<close>, has exactly one name, and its type resolves to vec4.
\<close>

definition isPositionField :: "('e, 't) types \<Rightarrow> 'e Field \<Rightarrow> bool" where
  "isPositionField T f =
     (case Field_Tag f of
        None \<Rightarrow> False
      | Some tag \<Rightarrow>
          kageTagRe_FindStringSubmatch tag = Some ''position'' \<and> length (Field_Names f) = 1
          \<and> parseType T (Field_Type f) = Inr (typVec4 T))"

text \<open>The variable that \<open>parseVaryingStruct\<close> stores as the position for such a field.\<close>

definition positionVariable :: "('e, 't) types \<Rightarrow> 'e Field \<Rightarrow> 't variable" where
  "positionVariable T f = \<lparr>name = Field_Names f ! 0, typ = typVec4 T, constant = False, init = []\<rparr>"

text \<open>
  What one field contributes when the loop body runs on it from the empty shader: its
  diagnostics and its varyings.
\<close>

definition fieldErrs :: "('e, 't) types \<Rightarrow> 'e Field \<Rightarrow> string list" where
  "fieldErrs T f = errs (parseVaryingField T f (emptyShader T))"

definition fieldVaryings :: "('e, 't) types \<Rightarrow> 'e Field \<Rightarrow> 't variable list" where
  "fieldVaryings T f = varyings (parseVaryingField T f (emptyShader T))"

text \<open>The position after a field list, given the position before it.\<close>

fun lastPosition :: "('e, 't) types \<Rightarrow> 'e Field list \<Rightarrow> 't variable \<Rightarrow> 't variable" where
  "lastPosition T [] p = p"
| "lastPosition T (f # fs) p =
     lastPosition T fs (if isPositionField T f then positionVariable T f else p)"

text \<open>
  The fields \<^verbatim>\<open>Pos vec4 `kage:"position"`; Tex vec2; Pos2 vec4 `kage:"position"`\<close> of a
  vertex-out struct with two position fields.
\<close>

definition example_fields :: "string Field list" where
  "example_fields =
     [\<lparr>Field_Names = [''Pos''], Field_Type = ''vec4'', Field_Tag = Some (kage_tag ''position'')\<rparr>,
      \<lparr>Field_Names = [''Tex''], Field_Type = ''vec2'', Field_Tag = None\<rparr>,
      \<lparr>Field_Names = [''Pos2''], Field_Type = ''vec4'', Field_Tag = Some (kage_tag ''position'')\<rparr>]"

text \<open>
  The declaration \<^verbatim>\<open>const n float = v\<close> and the scope object it gives to the name \<open>n\<close>.
\<close>

definition const_spec :: "string \<Rightarrow> Expr \<Rightarrow> string ValueSpec" where
  "const_spec n v = \<lparr>ValueSpec_Names = [n], ValueSpec_Type = ''float'', ValueSpec_Values = [v]\<rparr>"

definition const_object :: "string \<Rightarrow> Expr \<Rightarrow> string Object" where
  "const_object n v = \<lparr>Kind = Con, Name = n, Decl = ValueSpecDecl (const_spec n v)\<rparr>"

text \<open>
  Follows the wording of claim C8: one line per variable, each ended by a newline; the
  position line and the varyings as \<^verbatim>\<open>var <name> varying <type>\<close>, the uniforms as
  \<^verbatim>\<open>var <name> uniform <type>\<close>, a global as \<^verbatim>\<open>const <name> <type> = <initializer>\<close>
  when it is constant and as \<^verbatim>\<open>var <name> <type>\<close> otherwise.
\<close>

definition Dump_as_claimed :: "('e, 't) types \<Rightarrow> 't Shader \<Rightarrow> string" where
  "Dump_as_claimed T s =
     concat (map (\<lambda>l. l @ [CHR 0x0A])
       ([''var '' @ name (position s) @ '' varying '' @ typString T (typ (position s))]
        @ map (\<lambda>v. ''var '' @ name v @ '' varying '' @ typString T (typ v)) (varyings s)
        @ map (\<lambda>u. ''var '' @ name u @ '' uniform '' @ typString T (typ u)) (uniforms s)
        @ map (\<lambda>g. if constant g
                    then ''const '' @ name g @ '' '' @ typString T (typ g) @ '' = '' @ init g
                    else ''var '' @ name g @ '' '' @ typString T (typ g))
            (globals s)))"

text \<open>The Shader Model of the spec's end-to-end scenario.\<close>

definition example_model :: "kage_typ Shader" where
  "example_model =
     \<lparr>position = \<lparr>name = ''Position'', typ = TVec4, constant = False, init = []\<rparr>,
      varyings = [\<lparr>name = ''Texcoord'', typ = TVec2, constant = False, init = []\<rparr>],
      uniforms = [\<lparr>name = ''Tex'', typ = TVec2, constant = False, init = []\<rparr>],
      globals = [\<lparr>name = ''Scale'', typ = TFloat, constant = True, init = ''2.0''\<rparr>,
                 \<lparr>name = ''counter'', typ = TFloat, constant = False, init = []\<rparr>],
      errs = []\<rparr>"

text \<open>A model whose only global is a constant without a captured initializer.\<close>

definition example_model_no_init :: "kage_typ Shader" where
  "example_model_no_init =
     \<lparr>position = \<lparr>name = ''Position'', typ = TVec4, constant = False, init = []\<rparr>,
      varyings = [], uniforms = [],
      globals = [\<lparr>name = ''e'', typ = TFloat, constant = True, init = []\<rparr>],
      errs = []\<rparr>"

text \<open>
  The effect of the loop over the values of a constant declaration, apart from the
  shader it starts from: the globals and the diagnostics it appends, or \<open>None\<close> when it
  panics. \<open>parseConstantValues_effect\<close> below proves that the loop does exactly this.
\<close>

fun constantValuesEffect ::
    "string \<Rightarrow> 't \<Rightarrow> string list \<Rightarrow> Expr list \<Rightarrow> ('t variable list \<times> string list) option" where
  "constantValuesEffect nm t ns [] = Some ([], [])"
| "constantValuesEffect nm t [] (v # vs) = None"
| "constantValuesEffect nm t (n # ns) (v # vs) =
     (if n \<noteq> nm then constantValuesEffect nm t ns vs
      else
        (case v of
           BasicLit k val \<Rightarrow>
             if k \<noteq> token_INT \<and> k \<noteq> token_FLOAT then
               Some ([], [''literal must be int or float but '' @ Token_String k])
             else
               map_option (\<lambda>(g, e). (\<lparr>name = nm, typ = t, constant = True, init = val\<rparr> # g, e))
                 (constantValuesEffect nm t ns vs)
         | OtherExpr \<Rightarrow>
             map_option (\<lambda>(g, e). (\<lparr>name = nm, typ = t, constant = True, init = []\<rparr> # g, e))
               (constantValuesEffect nm t ns vs)))"

text \<open>
  What one entry of the scope map contributes: \<open>objectEffect\<close> runs the loop body of
  \<open>parse\<close> on it from the empty shader (\<open>None\<close>: the entry makes the classifier panic),
  and the diagnostics, varyings, uniforms and globals of the entry are read off the
  result. \<open>objectPosition\<close> is the position after the entry, given the position before.
\<close>

definition objectEffect :: "('e, 't) types \<Rightarrow> string \<times> 'e Object \<Rightarrow> 't Shader option" where
  "objectEffect T e = parseObject T (fst e) (snd e) (emptyShader T)"

definition objectErrs :: "('e, 't) types \<Rightarrow> string \<times> 'e Object \<Rightarrow> string list" where
  "objectErrs T e = (case objectEffect T e of None \<Rightarrow> [] | Some d \<Rightarrow> errs d)"

definition objectVaryings :: "('e, 't) types \<Rightarrow> string \<times> 'e Object \<Rightarrow> 't variable list" where
  "objectVaryings T e = (case objectEffect T e of None \<Rightarrow> [] | Some d \<Rightarrow> varyings d)"

definition objectUniforms :: "('e, 't) types \<Rightarrow> string \<times> 'e Object \<Rightarrow> 't variable list" where
  "objectUniforms T e = (case objectEffect T e of None \<Rightarrow> [] | Some d \<Rightarrow> uniforms d)"

definition objectGlobals :: "('e, 't) types \<Rightarrow> string \<times> 'e Object \<Rightarrow> 't variable list" where
  "objectGlobals T e = (case objectEffect T e of None \<Rightarrow> [] | Some d \<Rightarrow> globals d)"

definition objectPosition :: "('e, 't) types \<Rightarrow> string \<times> 'e Object \<Rightarrow> 't variable \<Rightarrow> 't variable" where
  "objectPosition T e p =
     (if fst e = varyingStructName \<and> Kind (snd e) = Typ then
        (case Decl (snd e) of
           TypeSpec (StructType fs) \<Rightarrow> lastPosition T fs p
         | _ \<Rightarrow> p)
      else p)"

text \<open>The position after a walk over the entries, given the position before it.\<close>

fun walkPosition :: "('e, 't) types \<Rightarrow> (string \<times> 'e Object) list \<Rightarrow> 't variable \<Rightarrow> 't variable" where
  "walkPosition T [] p = p"
| "walkPosition T (e # es) p = walkPosition T es (objectPosition T e p)"

text \<open>The zero value of \<open>variable\<close>, which \<open>&Shader{}\<close> has as its position: no name.\<close>

definition zeroVariable :: "('e, 't) types \<Rightarrow> 't variable" where
  "zeroVariable T = \<lparr>name = [], typ = typZero T, constant = False, init = []\<rparr>"

text \<open>
  What the documentation of \<open>sort.Slice\<close> promises for the comparison by name: the
  result is a permutation of the slice, in ascending order of the names. It does not
  promise stability.
\<close>

definition sorts_by_name ::
    "(('t variable \<Rightarrow> 't variable \<Rightarrow> bool) \<Rightarrow> 't variable list \<Rightarrow> 't variable list) \<Rightarrow> bool" where
  "sorts_by_name sortSlice =
     (\<forall>xs. mset (sortSlice name_less xs) = mset xs \<and> sorted (map name (sortSlice name_less xs)))"

text \<open>
  A \<open>sort.Slice\<close> for concrete runs: insertion sort from left to right, which keeps
  elements with equal keys in their order.
\<close>

fun insertByLess :: "('a \<Rightarrow> 'a \<Rightarrow> bool) \<Rightarrow> 'a \<Rightarrow> 'a list \<Rightarrow> 'a list" where
  "insertByLess lt x [] = [x]"
| "insertByLess lt x (y # ys) = (if lt x y then x # y # ys else y # insertByLess lt x ys)"

definition insertionSort :: "('a \<Rightarrow> 'a \<Rightarrow> bool) \<Rightarrow> 'a list \<Rightarrow> 'a list" where
  "insertionSort lt xs = foldl (\<lambda>acc x. insertByLess lt x acc) [] xs"

text \<open>
  Sources for concrete runs, with the files go/parser returns for them. The first is
  the spec's end-to-end scenario; the second has a position field of the wrong type, a
  field with a malformed tag and a variable of an unknown type. \<open>example_ParseFile\<close>,
  defined after the last of the sources, is go/parser on these sources, on the empty
  source (a syntax error, whose message is abbreviated) and on the source with only a
  package clause; it answers with an error for every source that is not listed.
\<close>

definition var_object :: "string \<Rightarrow> string \<Rightarrow> string Object" where
  "var_object n ty =
     \<lparr>Kind = Var, Name = n,
      Decl = ValueSpecDecl \<lparr>ValueSpec_Names = [n], ValueSpec_Type = ty, ValueSpec_Values = []\<rparr>\<rparr>"

definition struct_object :: "string Field list \<Rightarrow> string Object" where
  "struct_object fs = \<lparr>Kind = Typ, Name = ''VertexOut'', Decl = TypeSpec (StructType fs)\<rparr>"

definition scenario_source :: string where
  "scenario_source =
     ''package main; type VertexOut struct { Position vec4 '' @ kage_tag ''position''
     @ ''; Texcoord vec2 }; var Tex vec2; var counter float; const Scale float = 2.0''"

definition scenario_file :: "string File" where
  "scenario_file =
     \<lparr>Scope_Objects =
        [(''VertexOut'', struct_object
            [\<lparr>Field_Names = [''Position''], Field_Type = ''vec4'',
              Field_Tag = Some (kage_tag ''position'')\<rparr>,
             \<lparr>Field_Names = [''Texcoord''], Field_Type = ''vec2'', Field_Tag = None\<rparr>]),
         (''Tex'', var_object ''Tex'' ''vec2''),
         (''counter'', var_object ''counter'' ''float''),
         (''Scale'', const_object ''Scale'' (BasicLit token_FLOAT ''2.0''))]\<rparr>"

definition json_tag :: string where
  "json_tag = [CHR 0x22] @ ''json'' @ [CHR 0x22]"

definition three_errors_source :: string where
  "three_errors_source =
     ''package main; type VertexOut struct { Position vec2 '' @ kage_tag ''position''
     @ ''; Texcoord vec2 '' @ json_tag @ '' }; var Tex vec5''"

definition three_errors_file :: "string File" where
  "three_errors_file =
     \<lparr>Scope_Objects =
        [(''VertexOut'', struct_object
            [\<lparr>Field_Names = [''Position''], Field_Type = ''vec2'',
              Field_Tag = Some (kage_tag ''position'')\<rparr>,
             \<lparr>Field_Names = [''Texcoord''], Field_Type = ''vec2'',
              Field_Tag = Some json_tag\<rparr>]),
         (''Tex'', var_object ''Tex'' ''vec5'')]\<rparr>"

text \<open>The scenario with its declarations, and the fields of its struct, in another order.\<close>

definition reordered_scenario_source :: string where
  "reordered_scenario_source =
     ''package main; const Scale float = 2.0; var counter float; var Tex vec2; ''
     @ ''type VertexOut struct { Texcoord vec2; Position vec4 '' @ kage_tag ''position'' @ '' }''"

definition reordered_scenario_file :: "string File" where
  "reordered_scenario_file =
     \<lparr>Scope_Objects =
        [(''Scale'', const_object ''Scale'' (BasicLit token_FLOAT ''2.0'')),
         (''counter'', var_object ''counter'' ''float''),
         (''Tex'', var_object ''Tex'' ''vec2''),
         (''VertexOut'', struct_object
            [\<lparr>Field_Names = [''Texcoord''], Field_Type = ''vec2'', Field_Tag = None\<rparr>,
             \<lparr>Field_Names = [''Position''], Field_Type = ''vec4'',
              Field_Tag = Some (kage_tag ''position'')\<rparr>])]\<rparr>"

text \<open>Two variables of unknown types.\<close>

definition two_errors_source :: string where
  "two_errors_source = ''package main; var a vec5; var b vec6''"

definition two_errors_file :: "string File" where
  "two_errors_file =
     \<lparr>Scope_Objects = [(''a'', var_object ''a'' ''vec5''), (''b'', var_object ''b'' ''vec6'')]\<rparr>"

text \<open>
  A struct with two fields of the same name, and the same struct with the two field
  declarations exchanged. go/parser accepts both: it reports a redeclaration only in
  the mode \<open>DeclarationErrors\<close>, which \<open>NewShader\<close> does not set.
\<close>

definition duplicate_fields_source :: string where
  "duplicate_fields_source = ''package main; type VertexOut struct { A vec2; A vec3 }''"

definition duplicate_fields_file :: "string File" where
  "duplicate_fields_file =
     \<lparr>Scope_Objects =
        [(''VertexOut'', struct_object
            [\<lparr>Field_Names = [''A''], Field_Type = ''vec2'', Field_Tag = None\<rparr>,
             \<lparr>Field_Names = [''A''], Field_Type = ''vec3'', Field_Tag = None\<rparr>])]\<rparr>"

definition exchanged_fields_source :: string where
  "exchanged_fields_source = ''package main; type VertexOut struct { A vec3; A vec2 }''"

definition exchanged_fields_file :: "string File" where
  "exchanged_fields_file =
     \<lparr>Scope_Objects =
        [(''VertexOut'', struct_object
            [\<lparr>Field_Names = [''A''], Field_Type = ''vec3'', Field_Tag = None\<rparr>,
             \<lparr>Field_Names = [''A''], Field_Type = ''vec2'', Field_Tag = None\<rparr>])]\<rparr>"

text \<open>
  How go/parser fills the package scope from the package-level declarations \<open>ds\<close> of a
  source, taken in textual order: it enters one name after the other, and
  \<open>ast.Scope.Insert\<close> leaves an entry that exists alone. The first declaration of a name
  stays, and a later one is dropped without an error, since \<open>NewShader\<close> does not set
  the mode \<open>DeclarationErrors\<close>.
\<close>

fun declareAll :: "(string \<times> 'a) list \<Rightarrow> (string \<times> 'a) list" where
  "declareAll [] = []"
| "declareAll (d # ds) = d # filter (\<lambda>e. fst e \<noteq> fst d) (declareAll ds)"

text \<open>
  A variable declared twice, and the same two declarations exchanged, with the scopes
  go/parser builds for them.
\<close>

definition redeclared_source :: string where
  "redeclared_source = ''package main; var A vec2; var A vec3''"

definition redeclared_file :: "string File" where
  "redeclared_file =
     \<lparr>Scope_Objects =
        declareAll [(''A'', var_object ''A'' ''vec2''), (''A'', var_object ''A'' ''vec3'')]\<rparr>"

definition exchanged_redeclared_source :: string where
  "exchanged_redeclared_source = ''package main; var A vec3; var A vec2''"

definition exchanged_redeclared_file :: "string File" where
  "exchanged_redeclared_file =
     \<lparr>Scope_Objects =
        declareAll [(''A'', var_object ''A'' ''vec3''), (''A'', var_object ''A'' ''vec2'')]\<rparr>"

text \<open>
  A constant declaration with one name and two values. go/parser accepts it: the number
  of values is checked by the type checker, which \<open>NewShader\<close> does not run.
\<close>

definition extra_value_spec :: "string ValueSpec" where
  "extra_value_spec =
     \<lparr>ValueSpec_Names = [''a''], ValueSpec_Type = ''float'',
      ValueSpec_Values = [BasicLit token_INT ''1'', BasicLit token_INT ''2'']\<rparr>"

text \<open>
  The declaration \<^verbatim>\<open>const a, a float = "x", 1\<close>, which go/parser accepts as well (see
  \<open>declareAll\<close>).
\<close>

definition repeated_name_spec :: "string ValueSpec" where
  "repeated_name_spec =
     \<lparr>ValueSpec_Names = [''a'', ''a''], ValueSpec_Type = ''float'',
      ValueSpec_Values = [BasicLit token_STRING ''x'', BasicLit token_INT ''1'']\<rparr>"

definition extra_value_source :: string where
  "extra_value_source = ''package main; const a float = 1, 2''"

definition extra_value_file :: "string File" where
  "extra_value_file =
     \<lparr>Scope_Objects =
        [(''a'', \<lparr>Kind = Con, Name = ''a'', Decl = ValueSpecDecl extra_value_spec\<rparr>)]\<rparr>"

definition example_ParseFile :: "string \<Rightarrow> string + string File" where
  "example_ParseFile src =
     (if src = [] then Inl ''1:1: expected package, found EOF''
      else if src = ''package main'' then Inr \<lparr>Scope_Objects = []\<rparr>
      else if src = scenario_source then Inr scenario_file
      else if src = reordered_scenario_source then Inr reordered_scenario_file
      else if src = three_errors_source then Inr three_errors_file
      else if src = two_errors_source then Inr two_errors_file
      else if src = duplicate_fields_source then Inr duplicate_fields_file
      else if src = exchanged_fields_source then Inr exchanged_fields_file
      else if src = extra_value_source then Inr extra_value_file
      else if src = redeclared_source then Inr redeclared_file
      else if src = exchanged_redeclared_source then Inr exchanged_redeclared_file
      else Inl ''not one of the example sources'')"

text \<open>
  Follows the wording of claim C2, "re-ordering the declarations in the source": the
  fields of a struct are reordered when the new field list is a permutation of the old
  one in which the tagged fields keep their order (the untagged fields are the varying
  declarations); a declaration is reordered when it is unchanged or a struct type with
  reordered fields; the package-level declarations \<open>ds'\<close> of a source, given as
  the declared names in textual order with the objects go/parser creates for them, are
  a reordering of \<open>ds\<close> when they are the same reordered declarations in another order.
\<close>

definition reorderedFields :: "'e Field list \<Rightarrow> 'e Field list \<Rightarrow> bool" where
  "reorderedFields fs fs' =
     (mset fs' = mset fs
      \<and> filter (\<lambda>f. Field_Tag f \<noteq> None) fs' = filter (\<lambda>f. Field_Tag f \<noteq> None) fs)"

fun reorderedDecl :: "'e Decl \<Rightarrow> 'e Decl \<Rightarrow> bool" where
  "reorderedDecl (TypeSpec (StructType fs)) (TypeSpec (StructType fs')) = reorderedFields fs fs'"
| "reorderedDecl d d' = (d' = d)"

definition reorderedEntry :: "string \<times> 'e Object \<Rightarrow> string \<times> 'e Object \<Rightarrow> bool" where
  "reorderedEntry e e' =
     (fst e' = fst e \<and> Kind (snd e') = Kind (snd e) \<and> Name (snd e') = Name (snd e)
      \<and> reorderedDecl (Decl (snd e)) (Decl (snd e')))"

definition reorderedDeclarations ::
    "(string \<times> 'e Object) list \<Rightarrow> (string \<times> 'e Object) list \<Rightarrow> bool" where
  "reorderedDeclarations ds ds' = rel_mset reorderedEntry (mset ds) (mset ds')"

section \<open>The tag grammar\<close>

text \<open>
  The regular expression accepts exactly the tags made of the prefix, a non-empty value
  without a newline, and the suffix; the submatch is that value.
\<close>

lemma kageTagRe_match_iff:
  "kageTagRe_FindStringSubmatch tag = Some v \<longleftrightarrow>
     (v \<noteq> [] \<and> CHR 0x0A \<notin> set v \<and> tag = kageTagRe_prefix @ v @ kageTagRe_suffix)"
proof
  assume a: "kageTagRe_FindStringSubmatch tag = Some v"
  let ?n = "length tag"
  from a have n: "10 \<le> ?n" and p: "take 7 tag = kageTagRe_prefix"
    and s: "drop (?n - 2) tag = kageTagRe_suffix" and v: "v = take (?n - 9) (drop 7 tag)"
    and nl: "CHR 0x0A \<notin> set v"
    by (auto simp: kageTagRe_FindStringSubmatch_def Let_def split: if_splits)
  have "tag = take 7 tag @ drop 7 tag" by simp
  also have "drop 7 tag = take (?n - 9) (drop 7 tag) @ drop (?n - 9) (drop 7 tag)"
    by (rule append_take_drop_id [symmetric])
  also have "drop (?n - 9) (drop 7 tag) = drop (?n - 2) tag"
  proof -
    have "?n - 9 + 7 = ?n - 2" using n by arith
    then show ?thesis by (simp only: drop_drop)
  qed
  finally have "tag = kageTagRe_prefix @ v @ kageTagRe_suffix" using p s v by simp
  moreover have "v \<noteq> []" using n v by auto
  ultimately show "v \<noteq> [] \<and> CHR 0x0A \<notin> set v \<and> tag = kageTagRe_prefix @ v @ kageTagRe_suffix"
    using nl by simp
next
  assume a: "v \<noteq> [] \<and> CHR 0x0A \<notin> set v \<and> tag = kageTagRe_prefix @ v @ kageTagRe_suffix"
  then have "1 \<le> length v" by (cases v) auto
  then show "kageTagRe_FindStringSubmatch tag = Some v"
    using a by (simp add: kageTagRe_FindStringSubmatch_def Let_def kageTagRe_prefix_def
        kageTagRe_suffix_def)
qed

lemma kage_tag_match:
  "v \<noteq> [] \<Longrightarrow> CHR 0x0A \<notin> set v \<Longrightarrow> kageTagRe_FindStringSubmatch (kage_tag v) = Some v"
  by (simp add: kageTagRe_match_iff kage_tag_def)

lemma kage_resolve_simps:
  "kage_resolve ''float'' = Inr TFloat" "kage_resolve ''bool'' = Inr TBool"
  "kage_resolve ''vec2'' = Inr TVec2" "kage_resolve ''vec3'' = Inr TVec3"
  "kage_resolve ''vec4'' = Inr TVec4"
  "kage_resolve ''vec5'' = Inl ''unexpected type: vec5''"
  "kage_resolve ''vec6'' = Inl ''unexpected type: vec6''"
  by (simp_all add: kage_resolve_def)

lemma kage_types_simps:
  "parseType kage_types = kage_resolve" "numeric kage_types t = (t \<noteq> TBool)"
  "typVec4 kage_types = TVec4" "typString kage_types = kage_typ_name"
  "typZero kage_types = TFloat"
  by (simp_all add: kage_types_def)

section \<open>Fields of the vertex-out struct without a position tag\<close>



section \<open>Package-level variables\<close>

text \<open>The byte comparison of the code holds exactly for the 26 upper-case ASCII letters.\<close>

lemma upper_case_byte_iff:
  "(CHR ''A'' \<le> c \<and> c \<le> CHR ''Z'') = (c \<in> set ''ABCDEFGHIJKLMNOPQRSTUVWXYZ'')"
proof
  assume a: "CHR ''A'' \<le> c \<and> c \<le> CHR ''Z''"
  then have "(of_char c :: nat) \<in> {65..<91}" by (simp add: less_eq_char_def)
  then have "(of_char c :: nat) \<in> set [65..<91]" by (simp only: set_upt)
  then have "char_of (of_char c :: nat) \<in> char_of ` set [65..<91::nat]" by (rule imageI)
  then have "c \<in> set (map char_of [65..<91::nat])" by simp
  also have "map char_of [65..<91::nat] = ''ABCDEFGHIJKLMNOPQRSTUVWXYZ''" by code_simp
  finally show "c \<in> set ''ABCDEFGHIJKLMNOPQRSTUVWXYZ''" .
next
  assume "c \<in> set ''ABCDEFGHIJKLMNOPQRSTUVWXYZ''"
  then show "CHR ''A'' \<le> c \<and> c \<le> CHR ''Z''" by (auto simp: less_eq_char_def)
qed

text \<open>
  Claim C6. A package-level variable (an object whose declaration is a value spec) with
  the name \<open>c # cs\<close>: when its type resolves to \<open>t\<close>, the variable is appended to the
  uniforms if \<open>c\<close> is one of the upper-case ASCII letters and to the globals otherwise,
  whatever the rest \<open>cs\<close> of the name is, as a variable that is not constant and has no
  initializer, and nothing else changes; when its type does not resolve, the only
  effect is that the resolver's diagnostic is recorded.
\<close>

theorem C6_package_level_variable:
  assumes "Decl obj = ValueSpecDecl v"
  shows "parsePackageLevelVariable T (c # cs) obj s =
     (case parseType T (ValueSpec_Type v) of
        Inl err \<Rightarrow> Some (s\<lparr>errs := errs s @ [err]\<rparr>)
      | Inr t \<Rightarrow>
          if c \<in> set ''ABCDEFGHIJKLMNOPQRSTUVWXYZ''
          then Some (s\<lparr>uniforms := uniforms s
                        @ [\<lparr>name = c # cs, typ = t, constant = False, init = []\<rparr>]\<rparr>)
          else Some (s\<lparr>globals := globals s
                        @ [\<lparr>name = c # cs, typ = t, constant = False, init = []\<rparr>]\<rparr>))"
  using assms unfolding parsePackageLevelVariable_def addError_def upper_case_byte_iff [symmetric]
  by (simp add: Let_def split: sum.split)

text \<open>The variables \<open>Foo vec2\<close>, \<open>foo vec2\<close> and \<open>bar vec5\<close> of the spec's examples.\<close>

theorem C6_package_level_variable_witness:
  "parsePackageLevelVariable kage_types ''Foo''
       \<lparr>Kind = Var, Name = ''Foo'', Decl = ValueSpecDecl
          \<lparr>ValueSpec_Names = [''Foo''], ValueSpec_Type = ''vec2'', ValueSpec_Values = []\<rparr>\<rparr>
       (emptyShader kage_types)
     = Some ((emptyShader kage_types)
         \<lparr>uniforms := [\<lparr>name = ''Foo'', typ = TVec2, constant = False, init = []\<rparr>]\<rparr>)
   \<and> parsePackageLevelVariable kage_types ''foo''
       \<lparr>Kind = Var, Name = ''foo'', Decl = ValueSpecDecl
          \<lparr>ValueSpec_Names = [''foo''], ValueSpec_Type = ''vec2'', ValueSpec_Values = []\<rparr>\<rparr>
       (emptyShader kage_types)
     = Some ((emptyShader kage_types)
         \<lparr>globals := [\<lparr>name = ''foo'', typ = TVec2, constant = False, init = []\<rparr>]\<rparr>)
   \<and> parsePackageLevelVariable kage_types ''bar''
       \<lparr>Kind = Var, Name = ''bar'', Decl = ValueSpecDecl
          \<lparr>ValueSpec_Names = [''bar''], ValueSpec_Type = ''vec5'', ValueSpec_Values = []\<rparr>\<rparr>
       (emptyShader kage_types)
     = Some ((emptyShader kage_types)\<lparr>errs := [''unexpected type: vec5'']\<rparr>)"
proof (intro conjI)
  let ?s = "emptyShader kage_types"
  let ?v = "\<lambda>n t. \<lparr>ValueSpec_Names = [n], ValueSpec_Type = t, ValueSpec_Values = []\<rparr>"
  let ?o = "\<lambda>n t. \<lparr>Kind = Var, Name = n, Decl = ValueSpecDecl (?v n t)\<rparr>"
  have e: "errs ?s = []" "uniforms ?s = []" "globals ?s = []" by (simp_all add: emptyShader_def)
  show "parsePackageLevelVariable kage_types ''Foo'' (?o ''Foo'' ''vec2'') ?s
     = Some (?s\<lparr>uniforms := [\<lparr>name = ''Foo'', typ = TVec2, constant = False, init = []\<rparr>]\<rparr>)"
    using C6_package_level_variable [of "?o ''Foo'' ''vec2''" "?v ''Foo'' ''vec2''" kage_types
        "CHR ''F''" "''oo''" ?s]
    by (simp add: e kage_types_simps kage_resolve_simps)
  show "parsePackageLevelVariable kage_types ''foo'' (?o ''foo'' ''vec2'') ?s
     = Some (?s\<lparr>globals := [\<lparr>name = ''foo'', typ = TVec2, constant = False, init = []\<rparr>]\<rparr>)"
    using C6_package_level_variable [of "?o ''foo'' ''vec2''" "?v ''foo'' ''vec2''" kage_types
        "CHR ''f''" "''oo''" ?s]
    by (simp add: e kage_types_simps kage_resolve_simps)
  show "parsePackageLevelVariable kage_types ''bar'' (?o ''bar'' ''vec5'') ?s
     = Some (?s\<lparr>errs := [''unexpected type: vec5'']\<rparr>)"
    using C6_package_level_variable [of "?o ''bar'' ''vec5''" "?v ''bar'' ''vec5''" kage_types
        "CHR ''b''" "''ar''" ?s]
    by (simp add: e kage_types_simps kage_resolve_simps)
qed

section \<open>The loop over the fields of the vertex-out struct\<close>

text \<open>
  The loop body changes the shader only by what the field contributes: the position is
  replaced exactly for a field that passes all position checks, and varyings and
  diagnostics are appended.
\<close>

lemma parseVaryingField_frame:
  "parseVaryingField T f sh =
     sh\<lparr>position := (if isPositionField T f then positionVariable T f else position sh),
        varyings := varyings sh @ fieldVaryings T f,
        errs := errs sh @ fieldErrs T f\<rparr>"
  by (simp add: parseVaryingField_def isPositionField_def positionVariable_def fieldErrs_def
      fieldVaryings_def addError_def emptyShader_def
      split: option.split sum.split)

lemma positionField_no_effect:
  "isPositionField T f \<Longrightarrow> fieldErrs T f = [] \<and> fieldVaryings T f = []"
  by (auto simp: parseVaryingField_def isPositionField_def fieldErrs_def
      fieldVaryings_def addError_def emptyShader_def
      split: option.splits sum.split)

lemma parseVaryingFields_closed:
  "parseVaryingFields T fs sh =
     sh\<lparr>position := lastPosition T fs (position sh),
        varyings := varyings sh @ concat (map (fieldVaryings T) fs),
        errs := errs sh @ concat (map (fieldErrs T) fs)\<rparr>"
proof (induction fs arbitrary: sh)
  case Nil
  show ?case by simp
next
  case (Cons f fs)
  show ?case
    by (simp only: parseVaryingFields.simps Cons.IH) (simp add: parseVaryingField_frame)
qed

lemma lastPosition_append:
  "lastPosition T (fs @ [f]) p =
     (if isPositionField T f then positionVariable T f else lastPosition T fs p)"
  by (induction fs arbitrary: p) simp_all

lemma lastPosition_filter:
  "lastPosition T fs p =
     (if filter (isPositionField T) fs = [] then p
      else positionVariable T (last (filter (isPositionField T) fs)))"
proof (induction fs rule: rev_induct)
  case Nil
  show ?case by simp
next
  case (snoc f fs)
  show ?case by (simp add: lastPosition_append snoc.IH)
qed

lemma concat_map_filter_nil:
  "(\<And>x. x \<in> set xs \<Longrightarrow> \<not> P x \<Longrightarrow> g x = []) \<Longrightarrow> concat (map g (filter P xs)) = concat (map g xs)"
  by (induction xs) auto

lemma parseVaryingStruct_struct:
  "Kind obj = Typ \<Longrightarrow> Decl obj = TypeSpec (StructType fs) \<Longrightarrow>
     parseVaryingStruct T obj sh = Some (parseVaryingFields T fs sh)"
  by (simp add: parseVaryingStruct_def)

lemma isPositionField_example:
  "isPositionField kage_types \<lparr>Field_Names = [n], Field_Type = ''vec4'', Field_Tag = Some (kage_tag ''position'')\<rparr>"
  "\<not> isPositionField kage_types \<lparr>Field_Names = ns, Field_Type = ty, Field_Tag = None\<rparr>"
  by (simp_all add: isPositionField_def kage_tag_match kage_types_simps kage_resolve_simps)

section \<open>Fields with a well-formed tag\<close>

text \<open>
  Claim C3, as stated, asks for the diagnostic "position members must be one" whenever a
  field with a well-formed tag does not have exactly one name. The field
  \<^verbatim>\<open>A, B vec2 `kage:"foo"`\<close> has a well-formed tag and two names, and the only diagnostic
  recorded for it is the one about the tag value: the function leaves the loop body at
  the first check that fails.
\<close>

theorem C3_counterexample:
  "kageTagRe_FindStringSubmatch (kage_tag ''foo'') = Some ''foo''
   \<and> length (Field_Names \<lparr>Field_Names = [''A'', ''B''], Field_Type = ''vec2'',
                           Field_Tag = Some (kage_tag ''foo'')\<rparr>) \<noteq> 1
   \<and> errs (parseVaryingField kage_types
        \<lparr>Field_Names = [''A'', ''B''], Field_Type = ''vec2'', Field_Tag = Some (kage_tag ''foo'')\<rparr>
        (emptyShader kage_types))
     = [''struct tag value must be position in VertexOut but foo'']
   \<and> ''position members must be one'' \<notin> set (errs (parseVaryingField kage_types
        \<lparr>Field_Names = [''A'', ''B''], Field_Type = ''vec2'', Field_Tag = Some (kage_tag ''foo'')\<rparr>
        (emptyShader kage_types)))"
  by (simp add: parseVaryingField_def kage_tag_match addError_def emptyShader_def
      varyingStructName_def)

text \<open>
  Claim C3, amended. For a field whose tag is well formed with value \<open>v\<close>, the checks
  run in the order tag value, number of names, type, and only the first one that fails
  records its diagnostic: "struct tag value must be position in VertexOut but <v>" when
  \<open>v\<close> is not \<open>position\<close>; otherwise "position members must be one" when the field
  does not have exactly one name; otherwise the resolver's diagnostic when the type does
  not resolve, and "position must be vec4 but <type>" when it resolves to another type
  than vec4. Only when all checks pass is the field recorded as the position, and
  nothing else changes. In every case the loop goes on with the remaining fields.
\<close>

theorem C3_tagged_field_checks_in_order:
  assumes "Field_Tag f = Some tag" and "tag = kageTagRe_prefix @ v @ kageTagRe_suffix"
    and "v \<noteq> []" and "CHR 0x0A \<notin> set v"
  shows "parseVaryingField T f sh =
     (if v \<noteq> ''position'' then
        sh\<lparr>errs := errs sh @ [''struct tag value must be position in VertexOut but '' @ v]\<rparr>
      else if length (Field_Names f) \<noteq> 1 then
        sh\<lparr>errs := errs sh @ [''position members must be one'']\<rparr>
      else
        (case parseType T (Field_Type f) of
           Inl err \<Rightarrow> sh\<lparr>errs := errs sh @ [err]\<rparr>
         | Inr t \<Rightarrow>
             if t \<noteq> typVec4 T then
               sh\<lparr>errs := errs sh @ [''position must be vec4 but '' @ typString T t]\<rparr>
             else
               sh\<lparr>position :=
                    \<lparr>name = Field_Names f ! 0, typ = typVec4 T, constant = False, init = []\<rparr>\<rparr>))
   \<and> parseVaryingFields T (f # fs) sh = parseVaryingFields T fs (parseVaryingField T f sh)"
proof -
  have "kageTagRe_FindStringSubmatch tag = Some v"
    using assms(2-4) by (simp add: kageTagRe_match_iff)
  then show ?thesis using assms(1)
    by (simp add: parseVaryingField_def addError_def varyingStructName_def split: sum.split)
qed

text \<open>
  The four outcomes on concrete fields: \<^verbatim>\<open>Pos vec4 `kage:"position"`\<close> becomes the
  position; \<^verbatim>\<open>Pos vec2 `kage:"position"`\<close>, \<^verbatim>\<open>A, B vec4 `kage:"position"`\<close> and
  \<^verbatim>\<open>Pos vec4 `kage:"foo"`\<close> each record one diagnostic.
\<close>

theorem C3_tagged_field_checks_in_order_witness:
  "parseVaryingField kage_types
       \<lparr>Field_Names = [''Pos''], Field_Type = ''vec4'', Field_Tag = Some (kage_tag ''position'')\<rparr>
       (emptyShader kage_types)
     = (emptyShader kage_types)
         \<lparr>position := \<lparr>name = ''Pos'', typ = TVec4, constant = False, init = []\<rparr>\<rparr>
   \<and> parseVaryingField kage_types
       \<lparr>Field_Names = [''Pos''], Field_Type = ''vec2'', Field_Tag = Some (kage_tag ''position'')\<rparr>
       (emptyShader kage_types)
     = (emptyShader kage_types)\<lparr>errs := [''position must be vec4 but vec2'']\<rparr>
   \<and> parseVaryingField kage_types
       \<lparr>Field_Names = [''A'', ''B''], Field_Type = ''vec4'', Field_Tag = Some (kage_tag ''position'')\<rparr>
       (emptyShader kage_types)
     = (emptyShader kage_types)\<lparr>errs := [''position members must be one'']\<rparr>
   \<and> parseVaryingField kage_types
       \<lparr>Field_Names = [''Pos''], Field_Type = ''vec4'', Field_Tag = Some (kage_tag ''foo'')\<rparr>
       (emptyShader kage_types)
     = (emptyShader kage_types)
         \<lparr>errs := [''struct tag value must be position in VertexOut but foo'']\<rparr>"
proof -
  let ?s = "emptyShader kage_types"
  have e: "errs ?s = []" by (simp add: emptyShader_def)
  show ?thesis
  proof (intro conjI)
    show "parseVaryingField kage_types
       \<lparr>Field_Names = [''Pos''], Field_Type = ''vec4'', Field_Tag = Some (kage_tag ''position'')\<rparr> ?s
     = ?s\<lparr>position := \<lparr>name = ''Pos'', typ = TVec4, constant = False, init = []\<rparr>\<rparr>"
      using C3_tagged_field_checks_in_order
        [of "\<lparr>Field_Names = [''Pos''], Field_Type = ''vec4'', Field_Tag = Some (kage_tag ''position'')\<rparr>"
            "kage_tag ''position''" "''position''" kage_types ?s "[]"]
      by (simp add: kage_tag_def e kage_types_simps kage_resolve_simps)
    show "parseVaryingField kage_types
       \<lparr>Field_Names = [''Pos''], Field_Type = ''vec2'', Field_Tag = Some (kage_tag ''position'')\<rparr> ?s
     = ?s\<lparr>errs := [''position must be vec4 but vec2'']\<rparr>"
      using C3_tagged_field_checks_in_order
        [of "\<lparr>Field_Names = [''Pos''], Field_Type = ''vec2'', Field_Tag = Some (kage_tag ''position'')\<rparr>"
            "kage_tag ''position''" "''position''" kage_types ?s "[]"]
      by (simp add: kage_tag_def e kage_types_simps kage_resolve_simps)
    show "parseVaryingField kage_types
       \<lparr>Field_Names = [''A'', ''B''], Field_Type = ''vec4'', Field_Tag = Some (kage_tag ''position'')\<rparr> ?s
     = ?s\<lparr>errs := [''position members must be one'']\<rparr>"
      using C3_tagged_field_checks_in_order
        [of "\<lparr>Field_Names = [''A'', ''B''], Field_Type = ''vec4'', Field_Tag = Some (kage_tag ''position'')\<rparr>"
            "kage_tag ''position''" "''position''" kage_types ?s "[]"]
      by (simp add: kage_tag_def e)
    show "parseVaryingField kage_types
       \<lparr>Field_Names = [''Pos''], Field_Type = ''vec4'', Field_Tag = Some (kage_tag ''foo'')\<rparr> ?s
     = ?s\<lparr>errs := [''struct tag value must be position in VertexOut but foo'']\<rparr>"
      using C3_tagged_field_checks_in_order
        [of "\<lparr>Field_Names = [''Pos''], Field_Type = ''vec4'', Field_Tag = Some (kage_tag ''foo'')\<rparr>"
            "kage_tag ''foo''" "''foo''" kage_types ?s "[]"]
      by (simp add: kage_tag_def e)
  qed
qed

section \<open>Several position fields\<close>

text \<open>
  Claim C10. When the vertex-out struct has at least one field that passes all position
  checks, \<open>parseVaryingStruct\<close> returns with the position set from the last such field
  of the field list, and the diagnostics and varyings are those of the struct with all
  these fields removed: an earlier position field is overwritten without a diagnostic.
\<close>

theorem C10_last_position_field_wins:
  assumes "Kind obj = Typ" and "Decl obj = TypeSpec (StructType fs)"
    and "filter (isPositionField T) fs \<noteq> []"
  shows "\<exists>sh' sh''.
     parseVaryingStruct T obj sh = Some sh'
   \<and> position sh' =
       \<lparr>name = Field_Names (last (filter (isPositionField T) fs)) ! 0, typ = typVec4 T,
        constant = False, init = []\<rparr>
   \<and> parseVaryingStruct T
        (obj\<lparr>Decl := TypeSpec (StructType (filter (\<lambda>f. \<not> isPositionField T f) fs))\<rparr>) sh
       = Some sh''
   \<and> errs sh' = errs sh'' \<and> varyings sh' = varyings sh''"
proof -
  let ?fs' = "filter (\<lambda>f. \<not> isPositionField T f) fs"
  have 1: "parseVaryingStruct T obj sh = Some (parseVaryingFields T fs sh)"
    using assms(1,2) by (rule parseVaryingStruct_struct)
  have 2: "parseVaryingStruct T (obj\<lparr>Decl := TypeSpec (StructType ?fs')\<rparr>) sh
      = Some (parseVaryingFields T ?fs' sh)"
    using assms(1) by (simp add: parseVaryingStruct_def)
  have 3: "position (parseVaryingFields T fs sh) = positionVariable T (last (filter (isPositionField T) fs))"
    using assms(3) by (simp add: parseVaryingFields_closed lastPosition_filter)
  have 4: "concat (map (fieldErrs T) ?fs') = concat (map (fieldErrs T) fs)"
    by (rule concat_map_filter_nil) (simp add: positionField_no_effect)
  have 5: "concat (map (fieldVaryings T) ?fs') = concat (map (fieldVaryings T) fs)"
    by (rule concat_map_filter_nil) (simp add: positionField_no_effect)
  have 6: "errs (parseVaryingFields T fs sh) = errs (parseVaryingFields T ?fs' sh)"
    by (simp add: parseVaryingFields_closed 4)
  have 7: "varyings (parseVaryingFields T fs sh) = varyings (parseVaryingFields T ?fs' sh)"
    by (simp add: parseVaryingFields_closed 5)
  show ?thesis using 1 2 3 6 7 by (simp add: positionVariable_def)
qed

text \<open>
  The struct with the fields \<open>example_fields\<close>: the position is \<open>Pos2\<close>, the second
  of its two position fields, and no diagnostic is recorded.
\<close>

theorem C10_last_position_field_wins_witness:
  "filter (isPositionField kage_types) example_fields \<noteq> []
   \<and> (\<exists>sh'. parseVaryingStruct kage_types
              \<lparr>Kind = Typ, Name = ''VertexOut'', Decl = TypeSpec (StructType example_fields)\<rparr>
              (emptyShader kage_types) = Some sh'
          \<and> position sh' = \<lparr>name = ''Pos2'', typ = TVec4, constant = False, init = []\<rparr>
          \<and> errs sh' = [])"
proof -
  let ?obj = "\<lparr>Kind = Typ, Name = ''VertexOut'', Decl = TypeSpec (StructType example_fields)\<rparr>"
  have f: "filter (isPositionField kage_types) example_fields =
     [\<lparr>Field_Names = [''Pos''], Field_Type = ''vec4'', Field_Tag = Some (kage_tag ''position'')\<rparr>,
      \<lparr>Field_Names = [''Pos2''], Field_Type = ''vec4'', Field_Tag = Some (kage_tag ''position'')\<rparr>]"
    by (simp add: example_fields_def isPositionField_example)
  have g: "filter (\<lambda>f. \<not> isPositionField kage_types f) example_fields =
     [\<lparr>Field_Names = [''Tex''], Field_Type = ''vec2'', Field_Tag = None\<rparr>]"
    by (simp add: example_fields_def isPositionField_example)
  have h: "errs (parseVaryingFields kage_types
       [\<lparr>Field_Names = [''Tex''], Field_Type = ''vec2'', Field_Tag = None\<rparr>] (emptyShader kage_types)) = []"
    by (simp add: parseVaryingField_def kage_types_simps kage_resolve_simps emptyShader_def)
  have ne: "filter (isPositionField kage_types) example_fields \<noteq> []" by (simp add: f)
  from C10_last_position_field_wins [of ?obj example_fields kage_types "emptyShader kage_types"] ne
  obtain sh' sh'' where
      1: "parseVaryingStruct kage_types ?obj (emptyShader kage_types) = Some sh'"
    and 2: "position sh' = \<lparr>name = Field_Names (last (filter (isPositionField kage_types) example_fields)) ! 0,
         typ = typVec4 kage_types, constant = False, init = []\<rparr>"
    and 3: "parseVaryingStruct kage_types
        (?obj\<lparr>Decl := TypeSpec (StructType (filter (\<lambda>f. \<not> isPositionField kage_types f) example_fields))\<rparr>)
        (emptyShader kage_types) = Some sh''"
    and 4: "errs sh' = errs sh''"
    by auto
  from 3 have "sh'' = parseVaryingFields kage_types
       [\<lparr>Field_Names = [''Tex''], Field_Type = ''vec2'', Field_Tag = None\<rparr>] (emptyShader kage_types)"
    by (simp add: g parseVaryingStruct_def)
  with 4 h have "errs sh' = []" by simp
  moreover from 2 have "position sh' = \<lparr>name = ''Pos2'', typ = TVec4, constant = False, init = []\<rparr>"
    by (simp add: f kage_types_simps)
  ultimately show ?thesis using 1 ne by blast
qed

section \<open>Package-level constants\<close>

lemma parseConstantValues_absent:
  "nm \<notin> set ns \<Longrightarrow> length vs \<le> length ns \<Longrightarrow> parseConstantValues nm t ns vs s = Some s"
  by (induction nm t ns vs s rule: parseConstantValues.induct) auto

lemma parseConstantValues_at:
  "distinct ns \<Longrightarrow> i < length vs \<Longrightarrow> length vs \<le> length ns \<Longrightarrow>
   parseConstantValues (ns ! i) t ns vs s =
     (case vs ! i of
        BasicLit k val \<Rightarrow>
          if k \<noteq> token_INT \<and> k \<noteq> token_FLOAT
          then Some (s\<lparr>errs := errs s @ [''literal must be int or float but '' @ Token_String k]\<rparr>)
          else Some (s\<lparr>globals := globals s
                       @ [\<lparr>name = ns ! i, typ = t, constant = True, init = val\<rparr>]\<rparr>)
      | OtherExpr \<Rightarrow>
          Some (s\<lparr>globals := globals s
                  @ [\<lparr>name = ns ! i, typ = t, constant = True, init = []\<rparr>]\<rparr>))"
proof (induction ns arbitrary: vs i)
  case Nil
  then show ?case by simp
next
  case (Cons n ns)
  from Cons.prems obtain v vs' where vs: "vs = v # vs'" by (cases vs) auto
  show ?case
  proof (cases i)
    case 0
    have "n \<notin> set ns" using Cons.prems by simp
    moreover have "length vs' \<le> length ns" using Cons.prems vs by simp
    ultimately have r: "\<And>s'. parseConstantValues n t ns vs' s' = Some s'"
      by (rule parseConstantValues_absent)
    show ?thesis using 0 vs by (simp add: r addError_def split: Expr.split)
  next
    case (Suc j)
    have "ns ! j \<noteq> n" using Cons.prems Suc vs by auto
    moreover have "parseConstantValues (ns ! j) t ns vs' s = (case vs' ! j of
        BasicLit k val \<Rightarrow>
          if k \<noteq> token_INT \<and> k \<noteq> token_FLOAT
          then Some (s\<lparr>errs := errs s @ [''literal must be int or float but '' @ Token_String k]\<rparr>)
          else Some (s\<lparr>globals := globals s
                       @ [\<lparr>name = ns ! j, typ = t, constant = True, init = val\<rparr>]\<rparr>)
      | OtherExpr \<Rightarrow>
          Some (s\<lparr>globals := globals s
                  @ [\<lparr>name = ns ! j, typ = t, constant = True, init = []\<rparr>]\<rparr>))"
      using Cons.prems Suc vs by (intro Cons.IH) auto
    ultimately show ?thesis using Suc vs by (simp split: Expr.split)
  qed
qed

text \<open>
  On a constant declaration as the Go language admits it, with a type that resolves to
  \<open>t\<close>, with distinct names and at most as many values as names, \<open>parsePackageLevelConstant\<close>
  does for the name at an index \<open>i\<close> that has a value what claim C7 says: when the value is an INT or FLOAT literal, the name is appended to the globals
  with constant = true and the literal's text as initializer, whatever the case of the
  name is (the uniforms do not change); when it is a literal of another kind, the only
  effect is the diagnostic "literal must be int or float but <kind>"; when it is not a
  literal, the name is appended to the globals as a constant with the empty initializer
  and no diagnostic is recorded.
\<close>

lemma parsePackageLevelConstant_wellformed:
  assumes "Decl obj = ValueSpecDecl vs" and "parseType T (ValueSpec_Type vs) = Inr t"
    and "distinct (ValueSpec_Names vs)"
    and "length (ValueSpec_Values vs) \<le> length (ValueSpec_Names vs)"
    and "i < length (ValueSpec_Values vs)"
  shows "parsePackageLevelConstant T (ValueSpec_Names vs ! i) obj s =
     (case ValueSpec_Values vs ! i of
        BasicLit k val \<Rightarrow>
          if k = token_INT \<or> k = token_FLOAT
          then Some (s\<lparr>globals := globals s
                       @ [\<lparr>name = ValueSpec_Names vs ! i, typ = t, constant = True, init = val\<rparr>]\<rparr>)
          else Some (s\<lparr>errs := errs s @ [''literal must be int or float but '' @ Token_String k]\<rparr>)
      | OtherExpr \<Rightarrow>
          Some (s\<lparr>globals := globals s
                  @ [\<lparr>name = ValueSpec_Names vs ! i, typ = t, constant = True, init = []\<rparr>]\<rparr>))"
  using assms(1,2) parseConstantValues_at [OF assms(3,5,4), of t s]
  by (simp add: parsePackageLevelConstant_def split: Expr.split)

text \<open>
  The constants \<^verbatim>\<open>const Bar float = 1.0\<close>, \<^verbatim>\<open>const bar float = 1\<close>,
  \<^verbatim>\<open>const s float = "x"\<close> and a constant \<open>e\<close> whose initializer is not a literal.
\<close>

lemma parsePackageLevelConstant_wellformed_examples:
  "parsePackageLevelConstant kage_types ''Bar'' (const_object ''Bar'' (BasicLit token_FLOAT ''1.0''))
       (emptyShader kage_types)
     = Some ((emptyShader kage_types)
         \<lparr>globals := [\<lparr>name = ''Bar'', typ = TFloat, constant = True, init = ''1.0''\<rparr>]\<rparr>)
   \<and> parsePackageLevelConstant kage_types ''bar'' (const_object ''bar'' (BasicLit token_INT ''1''))
       (emptyShader kage_types)
     = Some ((emptyShader kage_types)
         \<lparr>globals := [\<lparr>name = ''bar'', typ = TFloat, constant = True, init = ''1''\<rparr>]\<rparr>)
   \<and> parsePackageLevelConstant kage_types ''s'' (const_object ''s'' (BasicLit token_STRING ''x''))
       (emptyShader kage_types)
     = Some ((emptyShader kage_types)\<lparr>errs := [''literal must be int or float but STRING'']\<rparr>)
   \<and> parsePackageLevelConstant kage_types ''e'' (const_object ''e'' OtherExpr)
       (emptyShader kage_types)
     = Some ((emptyShader kage_types)
         \<lparr>globals := [\<lparr>name = ''e'', typ = TFloat, constant = True, init = []\<rparr>]\<rparr>)"
proof -
  let ?s = "emptyShader kage_types"
  have e: "errs ?s = []" "globals ?s = []" by (simp_all add: emptyShader_def)
  have th: "parsePackageLevelConstant kage_types n (const_object n v) ?s =
     (case v of
        BasicLit k val \<Rightarrow>
          if k = token_INT \<or> k = token_FLOAT
          then Some (?s\<lparr>globals := [\<lparr>name = n, typ = TFloat, constant = True, init = val\<rparr>]\<rparr>)
          else Some (?s\<lparr>errs := [''literal must be int or float but '' @ Token_String k]\<rparr>)
      | OtherExpr \<Rightarrow>
          Some (?s\<lparr>globals := [\<lparr>name = n, typ = TFloat, constant = True, init = []\<rparr>]\<rparr>))" for n v
    using parsePackageLevelConstant_wellformed [of "const_object n v" "const_spec n v" kage_types TFloat 0 ?s]
    by (simp add: const_object_def const_spec_def kage_types_simps kage_resolve_simps e
        split: Expr.split)
  show ?thesis by (simp add: th)
qed

text \<open>
  Claim C7 speaks of every package-level constant declaration whose type resolves, and
  go/parser also delivers declarations that the Go language does not admit. On
  \<^verbatim>\<open>const a float = 1, 2\<close> the type resolves and the name \<open>a\<close> is bound to the integer
  literal \<open>1\<close>, but \<open>parsePackageLevelConstant\<close> does not return with \<open>a\<close> among the
  globals: after the first value the loop reads \<open>vs.Names[1]\<close> beyond the end of the
  slice of names and panics. On \<^verbatim>\<open>const a, a float = "x", 1\<close> the name \<open>a\<close> is bound to the
  integer literal \<open>1\<close> as well, but the function returns at the string literal and never
  appends it.
\<close>

theorem C7_extra_value_panics:
  "parseType kage_types (ValueSpec_Type extra_value_spec) = Inr TFloat
   \<and> parsePackageLevelConstant kage_types ''a''
       \<lparr>Kind = Con, Name = ''a'', Decl = ValueSpecDecl extra_value_spec\<rparr>
       (emptyShader kage_types) = None
   \<and> parseType kage_types (ValueSpec_Type repeated_name_spec) = Inr TFloat
   \<and> parsePackageLevelConstant kage_types ''a''
       \<lparr>Kind = Con, Name = ''a'', Decl = ValueSpecDecl repeated_name_spec\<rparr>
       (emptyShader kage_types)
     = Some ((emptyShader kage_types)\<lparr>errs := [''literal must be int or float but STRING'']\<rparr>)"
  by (simp add: parsePackageLevelConstant_def extra_value_spec_def repeated_name_spec_def
      kage_types_simps kage_resolve_simps addError_def emptyShader_def)

section \<open>Dump\<close>

lemma strings_Join_newline:
  "xs \<noteq> [] \<Longrightarrow> strings_Join xs sep @ sep = concat (map (\<lambda>x. x @ sep) xs)"
  by (induction xs sep rule: strings_Join.induct) auto

text \<open>
  Claim C8, as stated, gives the position line the grammar \<^verbatim>\<open>var <name> varying <type>\<close>.
  On the model of the spec's end-to-end scenario the code ends the position line with
  the comment \<^verbatim>\<open> // position\<close>, so its output differs from the output as claimed.
\<close>

theorem C8_counterexample:
  "Dump kage_types example_model =
     ''var Position varying vec4 // position'' @ [CHR 0x0A]
     @ ''var Texcoord varying vec2'' @ [CHR 0x0A]
     @ ''var Tex uniform vec2'' @ [CHR 0x0A]
     @ ''const Scale float = 2.0'' @ [CHR 0x0A]
     @ ''var counter float'' @ [CHR 0x0A]
   \<and> Dump_as_claimed kage_types example_model =
     ''var Position varying vec4'' @ [CHR 0x0A]
     @ ''var Texcoord varying vec2'' @ [CHR 0x0A]
     @ ''var Tex uniform vec2'' @ [CHR 0x0A]
     @ ''const Scale float = 2.0'' @ [CHR 0x0A]
     @ ''var counter float'' @ [CHR 0x0A]
   \<and> Dump kage_types example_model \<noteq> Dump_as_claimed kage_types example_model"
  by (simp add: Dump_def Dump_lines_def Dump_global_def Dump_as_claimed_def example_model_def
      kage_types_simps)

text \<open>
  Claim C8, amended. For every Shader Model, Dump renders one line per classified
  variable, each ended by a newline (so the output ends with a newline), in the order
  position, varyings, uniforms, globals, each group in the order of its list. The
  position line is \<^verbatim>\<open>var <name> varying <type> // position\<close>, a varying is
  \<^verbatim>\<open>var <name> varying <type>\<close>, a uniform is \<^verbatim>\<open>var <name> uniform <type>\<close>, and a global
  is \<^verbatim>\<open>const <name> <type>\<close> when it is constant and \<^verbatim>\<open>var <name> <type>\<close> otherwise,
  followed by \<^verbatim>\<open> = <initializer>\<close> exactly when its initializer is not empty.
\<close>

theorem C8_Dump:
  "Dump T s =
     concat (map (\<lambda>l. l @ [CHR 0x0A])
       ([''var '' @ name (position s) @ '' varying '' @ typString T (typ (position s))
           @ '' // position'']
        @ map (\<lambda>v. ''var '' @ name v @ '' varying '' @ typString T (typ v)) (varyings s)
        @ map (\<lambda>u. ''var '' @ name u @ '' uniform '' @ typString T (typ u)) (uniforms s)
        @ map (\<lambda>g. (if constant g then ''const '' else ''var '') @ name g @ '' ''
                     @ typString T (typ g) @ (if init g = [] then [] else '' = '' @ init g))
            (globals s)))"
proof -
  have g: "Dump_global T = (\<lambda>g. (if constant g then ''const '' else ''var '') @ name g @ '' ''
                     @ typString T (typ g) @ (if init g = [] then [] else '' = '' @ init g))"
    by (rule ext) (simp add: Dump_global_def)
  have "Dump_lines T s \<noteq> []" by (simp add: Dump_lines_def)
  then have "Dump T s = concat (map (\<lambda>l. l @ [CHR 0x0A]) (Dump_lines T s))"
    unfolding Dump_def by (rule strings_Join_newline)
  then show ?thesis by (simp only: Dump_lines_def g)
qed

text \<open>A constant whose initializer was not captured is rendered without \<^verbatim>\<open> = \<close>.\<close>

theorem C8_Dump_witness:
  "Dump kage_types example_model_no_init =
     ''var Position varying vec4 // position'' @ [CHR 0x0A] @ ''const e float'' @ [CHR 0x0A]"
  using C8_Dump [of kage_types example_model_no_init]
  by (simp add: example_model_no_init_def kage_types_simps)

section \<open>The walk over the declarations\<close>

text \<open>
  The loop over the values of a constant declaration, and then the loop body of
  \<open>parse\<close>, change the shader they are given only by appending what the declaration
  contributes (and by replacing the position); whether they panic does not depend on
  the shader.
\<close>

lemma parseConstantValues_effect:
  "parseConstantValues nm t ns vs s =
     map_option (\<lambda>(g, e). s\<lparr>globals := globals s @ g, errs := errs s @ e\<rparr>)
       (constantValuesEffect nm t ns vs)"
proof (induction nm t ns vs s rule: parseConstantValues.induct)
  case (1 nm t ns s)
  show ?case by simp
next
  case (2 nm t v vs s)
  show ?case by simp
next
  case (3 nm t n ns v vs s)
  show ?case
  proof (cases "n = nm")
    case False
    then show ?thesis using 3 by simp
  next
    case True
    show ?thesis
    proof (cases v)
      case (BasicLit k val)
      show ?thesis
      proof (cases "k \<noteq> token_INT \<and> k \<noteq> token_FLOAT")
        case True
        then show ?thesis using \<open>n = nm\<close> BasicLit by (simp add: addError_def)
      next
        case False
        then show ?thesis using \<open>n = nm\<close> BasicLit 3(2)
          by (cases "constantValuesEffect nm t ns vs") (auto simp: )
      qed
    next
      case OtherExpr
      then show ?thesis using \<open>n = nm\<close> 3(3)
        by (cases "constantValuesEffect nm t ns vs") auto
    qed
  qed
qed

lemma parseObject_frame:
  "parseObject T nm obj s =
     (case objectEffect T (nm, obj) of
        None \<Rightarrow> None
      | Some d \<Rightarrow>
          Some (s\<lparr>position := objectPosition T (nm, obj) (position s),
                  varyings := varyings s @ varyings d,
                  uniforms := uniforms s @ uniforms d,
                  globals := globals s @ globals d,
                  errs := errs s @ errs d\<rparr>))"
proof (cases "nm = varyingStructName")
  case True
  then show ?thesis
    by (simp add: objectEffect_def parseObject_def parseVaryingStruct_def objectPosition_def
        parseVaryingFields_closed addError_def emptyShader_def
        split: Decl.split TypeSpecType.split)
next
  case False
  show ?thesis
  proof (cases "Kind obj = Con")
    case True
    with False show ?thesis
      by (simp add: objectEffect_def parseObject_def parsePackageLevelConstant_def objectPosition_def
          parseConstantValues_effect addError_def emptyShader_def option.map_comp comp_def
          split: Decl.split sum.split option.split prod.split)
  next
    case nc: False
    show ?thesis
    proof (cases "Kind obj = Var")
      case True
      with False show ?thesis
        by (simp add: objectEffect_def parseObject_def parsePackageLevelVariable_def objectPosition_def
            addError_def emptyShader_def Let_def
            split: Decl.split sum.split list.split)
    next
      case False
      with nc \<open>nm \<noteq> varyingStructName\<close> show ?thesis
        by (cases "Kind obj") (simp_all add: objectEffect_def parseObject_def objectPosition_def
            emptyShader_def)
    qed
  qed
qed

lemma parse_closed:
  "parse T es s =
     (if \<exists>e\<in>set es. objectEffect T e = None then None
      else Some (s\<lparr>position := walkPosition T es (position s),
                   varyings := varyings s @ concat (map (objectVaryings T) es),
                   uniforms := uniforms s @ concat (map (objectUniforms T) es),
                   globals := globals s @ concat (map (objectGlobals T) es),
                   errs := errs s @ concat (map (objectErrs T) es)\<rparr>))"
proof (induction es arbitrary: s)
  case Nil
  show ?case by simp
next
  case (Cons e es)
  obtain nm obj where e: "e = (nm, obj)" by (cases e)
  show ?case
  proof (cases "objectEffect T (nm, obj)")
    case None
    then show ?thesis by (simp add: e parseObject_frame)
  next
    case (Some d)
    then have d: "objectVaryings T (nm, obj) = varyings d" "objectUniforms T (nm, obj) = uniforms d"
        "objectGlobals T (nm, obj) = globals d" "objectErrs T (nm, obj) = errs d"
      by (simp_all add: objectVaryings_def objectUniforms_def objectGlobals_def objectErrs_def)
    from Some show ?thesis
      by (simp add: e parseObject_frame Cons.IH d)
  qed
qed

lemma NewShader_closed:
  assumes "ParseFile src = Inr f"
    and "\<forall>e\<in>set (rangeOrder (Scope_Objects f)). objectEffect T e \<noteq> None"
  shows "NewShader ParseFile rangeOrder sortSlice T src =
     (if concat (map (objectErrs T) (rangeOrder (Scope_Objects f))) \<noteq> []
      then ReturnsParseError (concat (map (objectErrs T) (rangeOrder (Scope_Objects f))))
      else ReturnsShader
        \<lparr>position = walkPosition T (rangeOrder (Scope_Objects f)) (zeroVariable T),
         varyings = sortSlice name_less (concat (map (objectVaryings T) (rangeOrder (Scope_Objects f)))),
         uniforms = sortSlice name_less (concat (map (objectUniforms T) (rangeOrder (Scope_Objects f)))),
         globals = sortSlice name_less (concat (map (objectGlobals T) (rangeOrder (Scope_Objects f)))),
         errs = []\<rparr>)"
proof -
  let ?es = "rangeOrder (Scope_Objects f)"
  have np: "\<not> (\<exists>e\<in>set ?es. objectEffect T e = None)" using assms(2) by simp
  have p: "parse T ?es (emptyShader T) =
      Some \<lparr>position = walkPosition T ?es (zeroVariable T),
         varyings = concat (map (objectVaryings T) ?es),
         uniforms = concat (map (objectUniforms T) ?es),
         globals = concat (map (objectGlobals T) ?es),
         errs = concat (map (objectErrs T) ?es)\<rparr>"
    unfolding parse_closed using np by (simp add: emptyShader_def zeroVariable_def)
  show ?thesis
    unfolding NewShader_def using assms(1) by (simp add: p)
qed

lemma objectPosition_other: "fst e \<noteq> varyingStructName \<Longrightarrow> objectPosition T e p = p"
  by (simp add: objectPosition_def)

lemma walkPosition_other:
  "varyingStructName \<notin> fst ` set es \<Longrightarrow> walkPosition T es p = p"
  by (induction es arbitrary: p) (auto simp: objectPosition_other)

lemma walkPosition_map_of:
  "distinct (map fst es) \<Longrightarrow>
   walkPosition T es p =
     (case map_of es varyingStructName of
        None \<Rightarrow> p
      | Some obj \<Rightarrow> objectPosition T (varyingStructName, obj) p)"
proof (induction es arbitrary: p)
  case Nil
  show ?case by simp
next
  case (Cons e es)
  obtain nm obj where e: "e = (nm, obj)" by (cases e)
  show ?case
  proof (cases "nm = varyingStructName")
    case True
    then have "varyingStructName \<notin> fst ` set es" using Cons.prems e by auto
    then show ?thesis using True e by (simp add: walkPosition_other)
  next
    case False
    then show ?thesis using Cons e by (simp add: objectPosition_other)
  qed
qed

lemma map_of_range_order:
  assumes "distinct (map fst es)" and "mset es' = mset es"
  shows "map_of es' = map_of es"
proof -
  have "mset (map fst es') = mset (map fst es)" using assms(2) by (metis mset_map)
  then have "distinct (map fst es')" using assms(1) by (metis mset_eq_imp_distinct_iff)
  moreover have "set es' = set es" using assms(2) by (rule mset_eq_setD)
  ultimately show ?thesis using assms(1) by (simp add: map_of_inject_set)
qed

lemma vertexOut_errs_nil:
  assumes "objectErrs T (varyingStructName, obj) = []"
    and "objectEffect T (varyingStructName, obj) \<noteq> None"
  shows "\<exists>fs. Kind obj = Typ \<and> Decl obj = TypeSpec (StructType fs)"
  using assms
  by (auto simp: objectErrs_def objectEffect_def parseObject_def parseVaryingStruct_def addError_def
      emptyShader_def split: if_splits Decl.splits TypeSpecType.splits)

text \<open>The insertion sort keeps the promise of \<open>sort.Slice\<close>.\<close>

lemma mset_insertByLess: "mset (insertByLess lt x xs) = add_mset x (mset xs)"
  by (induction xs) auto

lemma mset_insertionSort_aux:
  "mset (foldl (\<lambda>acc x. insertByLess lt x acc) acc xs) = mset acc + mset xs"
  by (induction xs arbitrary: acc) (auto simp: mset_insertByLess)

lemma set_insertByLess: "set (insertByLess lt x xs) = insert x (set xs)"
  by (induction xs) auto

lemma sorted_insertByLess:
  "sorted (map name xs) \<Longrightarrow> sorted (map name (insertByLess name_less x xs))"
  by (induction xs) (auto simp: name_less_def set_insertByLess)

lemma sorted_insertionSort_aux:
  "sorted (map name acc) \<Longrightarrow> sorted (map name (foldl (\<lambda>acc x. insertByLess name_less x acc) acc xs))"
  by (induction xs arbitrary: acc) (auto simp: sorted_insertByLess)

lemma sorts_by_name_insertionSort: "sorts_by_name insertionSort"
  by (simp add: sorts_by_name_def insertionSort_def mset_insertionSort_aux sorted_insertionSort_aux)

text \<open>Facts for evaluating concrete runs.\<close>

lemmas run_simps =
  objectEffect_def objectErrs_def objectVaryings_def objectUniforms_def objectGlobals_def
  objectPosition_def parseObject_def parseVaryingStruct_def parseVaryingField_def
  parsePackageLevelVariable_def parsePackageLevelConstant_def addError_def emptyShader_def
  zeroVariable_def varyingStructName_def kage_types_simps kage_resolve_simps kage_tag_match
  isPositionField_def positionVariable_def Let_def var_object_def struct_object_def
  const_object_def const_spec_def insertionSort_def name_less_def

lemma json_tag_no_match: "kageTagRe_FindStringSubmatch json_tag = None"
  by (simp add: kageTagRe_FindStringSubmatch_def json_tag_def kageTagRe_prefix_def)

lemma example_ParseFile_simps:
  "example_ParseFile [] = Inl ''1:1: expected package, found EOF''"
  "example_ParseFile ''package main'' = Inr \<lparr>Scope_Objects = []\<rparr>"
  "example_ParseFile scenario_source = Inr scenario_file"
  "example_ParseFile three_errors_source = Inr three_errors_file"
  "example_ParseFile reordered_scenario_source = Inr reordered_scenario_file"
  "example_ParseFile two_errors_source = Inr two_errors_file"
  "example_ParseFile duplicate_fields_source = Inr duplicate_fields_file"
  "example_ParseFile exchanged_fields_source = Inr exchanged_fields_file"
  "example_ParseFile extra_value_source = Inr extra_value_file"
  "example_ParseFile redeclared_source = Inr redeclared_file"
  "example_ParseFile exchanged_redeclared_source = Inr exchanged_redeclared_file"
  by (simp_all add: example_ParseFile_def scenario_source_def three_errors_source_def
      reordered_scenario_source_def two_errors_source_def duplicate_fields_source_def
      exchanged_fields_source_def extra_value_source_def redeclared_source_def
      exchanged_redeclared_source_def kage_tag_def kageTagRe_prefix_def)

section \<open>The outcome of NewShader\<close>

text \<open>
  Claim C1, as stated, gives \<open>NewShader\<close> two outcomes for every source input. On the
  empty source go/parser reports a syntax error and \<open>NewShader\<close> returns that error,
  which is neither a Shader Model nor a ParseError.
\<close>

theorem C1_counterexample:
  "NewShader example_ParseFile (\<lambda>es. es) insertionSort kage_types []
     = ReturnsSyntaxError ''1:1: expected package, found EOF''"
  by (simp add: NewShader_def example_ParseFile_simps)

text \<open>
  Claim C1, amended. When go/parser rejects the source, \<open>NewShader\<close> returns the
  parser's error. When it accepts the source and no declaration makes the classifier
  panic, the diagnostics of the walk are the diagnostics of all visited declarations,
  each contributing what it records on its own, in visiting order: no diagnostic stops
  the walk. If there is any diagnostic, \<open>NewShader\<close> returns a ParseError with exactly
  these messages and no model; otherwise it returns the Shader Model that holds the
  contributions of all declarations: the position, and the sorted varyings, uniforms
  and globals.
\<close>

theorem C1_NewShader_outcome:
  "(\<forall>err. ParseFile src = Inl err \<longrightarrow>
       NewShader ParseFile rangeOrder sortSlice T src = ReturnsSyntaxError err)
   \<and> (\<forall>f. ParseFile src = Inr f
          \<and> (\<forall>e\<in>set (rangeOrder (Scope_Objects f)). objectEffect T e \<noteq> None) \<longrightarrow>
        (let es = rangeOrder (Scope_Objects f); msgs = concat (map (objectErrs T) es)
         in if msgs \<noteq> [] then
              NewShader ParseFile rangeOrder sortSlice T src = ReturnsParseError msgs
            else
              NewShader ParseFile rangeOrder sortSlice T src = ReturnsShader
                \<lparr>position = walkPosition T es (zeroVariable T),
                 varyings = sortSlice name_less (concat (map (objectVaryings T) es)),
                 uniforms = sortSlice name_less (concat (map (objectUniforms T) es)),
                 globals = sortSlice name_less (concat (map (objectGlobals T) es)),
                 errs = []\<rparr>))"
proof (intro conjI allI impI)
  fix err assume "ParseFile src = Inl err"
  then show "NewShader ParseFile rangeOrder sortSlice T src = ReturnsSyntaxError err"
    by (simp add: NewShader_def)
next
  fix f
  assume a: "ParseFile src = Inr f
          \<and> (\<forall>e\<in>set (rangeOrder (Scope_Objects f)). objectEffect T e \<noteq> None)"
  then have 1: "ParseFile src = Inr f"
    and 2: "\<forall>e\<in>set (rangeOrder (Scope_Objects f)). objectEffect T e \<noteq> None" by simp_all
  from NewShader_closed [of ParseFile src f rangeOrder T sortSlice, OF 1 2]
  show "let es = rangeOrder (Scope_Objects f); msgs = concat (map (objectErrs T) es)
         in if msgs \<noteq> [] then
              NewShader ParseFile rangeOrder sortSlice T src = ReturnsParseError msgs
            else
              NewShader ParseFile rangeOrder sortSlice T src = ReturnsShader
                \<lparr>position = walkPosition T es (zeroVariable T),
                 varyings = sortSlice name_less (concat (map (objectVaryings T) es)),
                 uniforms = sortSlice name_less (concat (map (objectUniforms T) es)),
                 globals = sortSlice name_less (concat (map (objectGlobals T) es)),
                 errs = []\<rparr>"
    by (simp add: Let_def)
qed

text \<open>
  The spec's end-to-end scenario compiles to its Shader Model; the source with three
  faults returns a ParseError with three messages; the empty source returns the
  parser's error.
\<close>

theorem C1_NewShader_outcome_witness:
  "NewShader example_ParseFile (\<lambda>es. es) insertionSort kage_types scenario_source
     = ReturnsShader example_model
   \<and> NewShader example_ParseFile (\<lambda>es. es) insertionSort kage_types three_errors_source
     = ReturnsParseError
         [''position must be vec4 but vec2'',
          ''invalid struct tag: '' @ json_tag,
          ''unexpected type: vec5'']
   \<and> NewShader example_ParseFile (\<lambda>es. es) insertionSort kage_types []
     = ReturnsSyntaxError ''1:1: expected package, found EOF''"
proof (intro conjI)
  show "NewShader example_ParseFile (\<lambda>es. es) insertionSort kage_types scenario_source
     = ReturnsShader example_model"
    using C1_NewShader_outcome [where ParseFile = example_ParseFile and src = scenario_source
        and rangeOrder = "\<lambda>es. es" and T = kage_types and sortSlice = insertionSort]
    by (simp add: example_ParseFile_simps scenario_file_def example_model_def run_simps)
  show "NewShader example_ParseFile (\<lambda>es. es) insertionSort kage_types three_errors_source
     = ReturnsParseError
         [''position must be vec4 but vec2'',
          ''invalid struct tag: '' @ json_tag,
          ''unexpected type: vec5'']"
    using C1_NewShader_outcome [where ParseFile = example_ParseFile and src = three_errors_source
        and rangeOrder = "\<lambda>es. es" and T = kage_types and sortSlice = insertionSort]
    by (simp add: example_ParseFile_simps three_errors_file_def run_simps json_tag_no_match)
  show "NewShader example_ParseFile (\<lambda>es. es) insertionSort kage_types []
     = ReturnsSyntaxError ''1:1: expected package, found EOF''"
    using C1_NewShader_outcome [where ParseFile = example_ParseFile and src = "[]"
        and rangeOrder = "\<lambda>es. es" and T = kage_types and sortSlice = insertionSort]
    by (simp add: example_ParseFile_simps)
qed

section \<open>The position of a successful compile\<close>

text \<open>
  Claim C4, as stated, says that a successful compile has its position set, of type
  vec4. The source that consists of a package clause only compiles successfully, and
  the position of its model is the zero variable, without a name: \<open>NewShader\<close> never
  checks that a position was recorded.
\<close>

theorem C4_counterexample:
  "NewShader example_ParseFile (\<lambda>es. es) insertionSort kage_types ''package main''
     = ReturnsShader
         \<lparr>position = \<lparr>name = [], typ = TFloat, constant = False, init = []\<rparr>,
          varyings = [], uniforms = [], globals = [], errs = []\<rparr>"
  by (simp add: NewShader_def example_ParseFile_simps emptyShader_def insertionSort_def
      kage_types_simps)

text \<open>
  Claim C4, amended. For every successful compile of a file whose scope is a map: when
  the file declares no \<open>VertexOut\<close>, the position of the model is the unset zero
  variable; when it does, \<open>VertexOut\<close> is a struct type, and the position is the unset
  zero variable if no field of the struct passes all position checks, and otherwise the
  variable of the last such field, whose type is vec4.
\<close>

theorem C4_position_of_successful_compile:
  assumes "ParseFile src = Inr f" and "distinct (map fst (Scope_Objects f))"
    and "mset (rangeOrder (Scope_Objects f)) = mset (Scope_Objects f)"
    and "NewShader ParseFile rangeOrder sortSlice T src = ReturnsShader s"
  shows "case map_of (Scope_Objects f) varyingStructName of
           None \<Rightarrow> position s = zeroVariable T
         | Some obj \<Rightarrow>
             (\<exists>fs. Kind obj = Typ \<and> Decl obj = TypeSpec (StructType fs)
                \<and> (if filter (isPositionField T) fs = [] then position s = zeroVariable T
                    else position s = positionVariable T (last (filter (isPositionField T) fs))
                         \<and> typ (position s) = typVec4 T))"
proof -
  let ?es = "rangeOrder (Scope_Objects f)"
  from assms(1,4) obtain s0 where s0: "parse T ?es (emptyShader T) = Some s0"
    and e0: "errs s0 = []" and ps: "position s = position s0"
    by (auto simp: NewShader_def split: option.splits if_splits)
  from s0 have np: "\<forall>e\<in>set ?es. objectEffect T e \<noteq> None"
    by (auto simp: parse_closed split: if_splits)
  from s0 np have "errs s0 = concat (map (objectErrs T) ?es)"
    and "position s0 = walkPosition T ?es (zeroVariable T)"
    by (auto simp: parse_closed emptyShader_def zeroVariable_def)
  with e0 ps have en: "\<forall>e\<in>set ?es. objectErrs T e = []"
    and p: "position s = walkPosition T ?es (zeroVariable T)" by auto
  have mo: "map_of ?es = map_of (Scope_Objects f)"
    using assms(2,3) by (rule map_of_range_order)
  have d: "distinct (map fst ?es)"
    using assms(2,3) by (metis mset_eq_imp_distinct_iff mset_map)
  have p': "position s = (case map_of (Scope_Objects f) varyingStructName of
        None \<Rightarrow> zeroVariable T
      | Some obj \<Rightarrow> objectPosition T (varyingStructName, obj) (zeroVariable T))"
    using p walkPosition_map_of [OF d, of T "zeroVariable T"] mo by simp
  show ?thesis
  proof (cases "map_of (Scope_Objects f) varyingStructName")
    case None
    then show ?thesis using p' by simp
  next
    case (Some obj)
    then have "(varyingStructName, obj) \<in> set ?es" using mo by (metis map_of_SomeD)
    then have "objectErrs T (varyingStructName, obj) = []"
      and "objectEffect T (varyingStructName, obj) \<noteq> None" using en np by auto
    then obtain fs where fs: "Kind obj = Typ" "Decl obj = TypeSpec (StructType fs)"
      using vertexOut_errs_nil by blast
    then have "position s = lastPosition T fs (zeroVariable T)"
      using p' Some by (simp add: objectPosition_def)
    then show ?thesis using Some fs
      by (simp add: lastPosition_filter positionVariable_def)
  qed
qed

text \<open>The spec's end-to-end scenario: the position is the field \<open>Position\<close>, of type vec4.\<close>

theorem C4_position_of_successful_compile_witness:
  "NewShader example_ParseFile (\<lambda>es. es) insertionSort kage_types scenario_source
     = ReturnsShader example_model
   \<and> position example_model = \<lparr>name = ''Position'', typ = TVec4, constant = False, init = []\<rparr>
   \<and> typ (position example_model) = typVec4 kage_types"
proof -
  have 1: "NewShader example_ParseFile (\<lambda>es. es) insertionSort kage_types scenario_source
     = ReturnsShader example_model"
    by (simp add: NewShader_def example_ParseFile_simps scenario_file_def example_model_def run_simps)
  have 2: "distinct (map fst (Scope_Objects scenario_file))" by (simp add: scenario_file_def)
  show ?thesis
    using C4_position_of_successful_compile [where ParseFile = example_ParseFile
        and src = scenario_source and f = scenario_file and rangeOrder = "\<lambda>es. es"
        and sortSlice = insertionSort and T = kage_types and s = example_model] 1 2
    by (simp add: example_ParseFile_simps scenario_file_def run_simps)
qed

section \<open>Visiting the declarations in another order\<close>

text \<open>
  A permutation of the visited entries permutes the diagnostics, uniforms and globals.
  When the entries form a map, only the entry named \<open>VertexOut\<close> contributes to the
  position and the varyings, so these do not change, and the names of the uniforms are
  distinct.
\<close>

lemma mset_concat_map_perm:
  assumes "mset ys = mset xs"
  shows "mset (concat (map g ys)) = mset (concat (map g xs))"
proof -
  have "mset (concat (map g zs)) = sum_mset (image_mset (\<lambda>z. mset (g z)) (mset zs))" for zs
    by (induction zs) simp_all
  then show ?thesis using assms by simp
qed

lemma walkPosition_perm:
  assumes "distinct (map fst xs)" and "mset ys = mset xs"
  shows "walkPosition T ys p = walkPosition T xs p"
proof -
  have "distinct (map fst ys)" using assms by (metis mset_eq_imp_distinct_iff mset_map)
  moreover have "map_of ys = map_of xs" using assms by (rule map_of_range_order)
  ultimately show ?thesis using assms(1) by (simp add: walkPosition_map_of)
qed

lemma objectVaryings_other: "fst e \<noteq> varyingStructName \<Longrightarrow> objectVaryings T e = []"
  by (cases "Kind (snd e)")
    (auto simp: objectVaryings_def objectEffect_def parseObject_def parsePackageLevelConstant_def
      parsePackageLevelVariable_def parseConstantValues_effect addError_def emptyShader_def Let_def
      split: option.splits Decl.splits sum.splits list.splits if_splits)

lemma concat_map_of:
  assumes "distinct (map fst es)" and "\<And>e. fst e \<noteq> k \<Longrightarrow> g e = []"
  shows "concat (map g es) = (case map_of es k of None \<Rightarrow> [] | Some v \<Rightarrow> g (k, v))"
  using assms(1)
proof (induction es)
  case Nil
  show ?case by simp
next
  case (Cons e es)
  obtain n v where e: "e = (n, v)" by (cases e)
  show ?case
  proof (cases "n = k")
    case True
    then have "k \<notin> fst ` set es" using Cons.prems e by auto
    then have "concat (map g es) = []" using assms(2) by (auto simp: image_iff)
    then show ?thesis using True e by simp
  next
    case False
    then show ?thesis using Cons e assms(2) by simp
  qed
qed

lemma varyings_perm:
  assumes "distinct (map fst xs)" and "mset ys = mset xs"
  shows "concat (map (objectVaryings T) ys) = concat (map (objectVaryings T) xs)"
proof -
  have "distinct (map fst ys)" using assms by (metis mset_eq_imp_distinct_iff mset_map)
  moreover have "map_of ys = map_of xs" using assms by (rule map_of_range_order)
  ultimately show ?thesis using assms(1)
    by (simp add: concat_map_of [where k = varyingStructName] objectVaryings_other)
qed

lemma objectUniforms_names: "map name (objectUniforms T e) = [] \<or> map name (objectUniforms T e) = [fst e]"
  by (cases "Kind (snd e)")
    (auto simp: objectUniforms_def objectEffect_def parseObject_def parsePackageLevelConstant_def
      parsePackageLevelVariable_def parseConstantValues_effect addError_def emptyShader_def Let_def
      parseVaryingStruct_def parseVaryingFields_closed
      split: option.splits Decl.splits sum.splits list.splits if_splits TypeSpecType.splits)

lemma uniforms_names_subset:
  "set (map name (concat (map (objectUniforms T) es))) \<subseteq> fst ` set es"
proof (induction es)
  case Nil
  show ?case by simp
next
  case (Cons e es)
  from objectUniforms_names [of T e] have "set (map name (objectUniforms T e)) \<subseteq> {fst e}" by auto
  moreover have "set (map name (concat (map (objectUniforms T) (e # es)))) =
      set (map name (objectUniforms T e)) \<union> set (map name (concat (map (objectUniforms T) es)))"
    by simp
  ultimately show ?case using Cons by (simp only: list.set image_insert) blast
qed

lemma uniforms_distinct:
  "distinct (map fst es) \<Longrightarrow> distinct (map name (concat (map (objectUniforms T) es)))"
proof (induction es)
  case Nil
  show ?case by simp
next
  case (Cons e es)
  have 1: "distinct (map name (objectUniforms T e))"
    using objectUniforms_names [of T e] by auto
  have 2: "set (map name (objectUniforms T e)) \<subseteq> {fst e}"
    using objectUniforms_names [of T e] by auto
  have 3: "fst e \<notin> fst ` set es" using Cons.prems by auto
  have 4: "set (map name (concat (map (objectUniforms T) es))) \<subseteq> fst ` set es"
    by (rule uniforms_names_subset)
  have "set (map name (objectUniforms T e)) \<inter> set (map name (concat (map (objectUniforms T) es))) = {}"
    using 2 3 4 by blast
  then show ?case using 1 Cons by simp
qed

text \<open>
  Any two sorts that keep the promise of \<open>sort.Slice\<close> agree on permutations of a
  list whose names are distinct.
\<close>

lemma sortSlice_unique:
  assumes "sorts_by_name sortSlice" and "mset ys = mset xs" and "distinct (map name xs)"
  shows "sortSlice name_less ys = sortSlice name_less xs"
proof -
  let ?a = "sortSlice name_less xs" and ?b = "sortSlice name_less ys"
  from assms(1) have a: "mset ?a = mset xs" "sorted (map name ?a)"
    and b: "mset ?b = mset ys" "sorted (map name ?b)"
    by (simp_all add: sorts_by_name_def)
  have ab: "mset ?b = mset ?a" using a b assms(2) by simp
  have "mset (map name ?a) = mset (map name xs)" using a(1) by (metis mset_map)
  then have da: "distinct (map name ?a)" using assms(3) by (metis mset_eq_imp_distinct_iff)
  have "mset (map name ?b) = mset (map name ?a)" using ab by (metis mset_map)
  then have "sort (map name ?a) = map name ?b" using b(2) by (rule properties_for_sort)
  moreover have "sort (map name ?a) = map name ?a" using a(2) by (simp add: sort_key_id_if_sorted)
  ultimately have m: "map name ?b = map name ?a" by simp
  have "inj_on name (set ?a)" using da by (simp add: distinct_map)
  moreover have "set ?b = set ?a" using ab by (rule mset_eq_setD)
  ultimately have "inj_on name (set ?b \<union> set ?a)" by simp
  then show ?thesis using m by (rule inj_on_map_eq_map [THEN iffD1])
qed

lemma distinct_names_sorted:
  assumes "sorts_by_name sortSlice" and "distinct (map name (sortSlice name_less xs))"
  shows "distinct (map name xs)"
proof -
  have "mset (sortSlice name_less xs) = mset xs" using assms(1) by (simp add: sorts_by_name_def)
  then have "mset (map name (sortSlice name_less xs)) = mset (map name xs)" by (metis mset_map)
  then show ?thesis using assms(2) by (metis mset_eq_imp_distinct_iff)
qed

lemma NewShader_panics:
  assumes "ParseFile src = Inr f"
    and "\<exists>e\<in>set (rangeOrder (Scope_Objects f)). objectEffect T e = None"
  shows "NewShader ParseFile rangeOrder sortSlice T src = Panics"
  using assms by (simp add: NewShader_def parse_closed)

lemma NewShader_success:
  assumes "ParseFile src = Inr f" and "NewShader ParseFile rangeOrder sortSlice T src = ReturnsShader s"
  shows "\<forall>e\<in>set (rangeOrder (Scope_Objects f)). objectEffect T e \<noteq> None"
    and "concat (map (objectErrs T) (rangeOrder (Scope_Objects f))) = []"
proof -
  let ?es = "rangeOrder (Scope_Objects f)"
  from assms obtain s0 where s0: "parse T ?es (emptyShader T) = Some s0" and e0: "errs s0 = []"
    by (auto simp: NewShader_def split: option.splits if_splits)
  from s0 show np: "\<forall>e\<in>set ?es. objectEffect T e \<noteq> None"
    by (auto simp: parse_closed split: if_splits)
  from s0 np have "errs s0 = concat (map (objectErrs T) ?es)"
    by (auto simp: parse_closed emptyShader_def)
  with e0 show "concat (map (objectErrs T) ?es) = []" by simp
qed

lemma NewShader_model:
  assumes "ParseFile src = Inr f"
    and "\<forall>e\<in>set (rangeOrder (Scope_Objects f)). objectEffect T e \<noteq> None"
    and "concat (map (objectErrs T) (rangeOrder (Scope_Objects f))) = []"
  shows "NewShader ParseFile rangeOrder sortSlice T src =
     ReturnsShader
        \<lparr>position = walkPosition T (rangeOrder (Scope_Objects f)) (zeroVariable T),
         varyings = sortSlice name_less (concat (map (objectVaryings T) (rangeOrder (Scope_Objects f)))),
         uniforms = sortSlice name_less (concat (map (objectUniforms T) (rangeOrder (Scope_Objects f)))),
         globals = sortSlice name_less (concat (map (objectGlobals T) (rangeOrder (Scope_Objects f)))),
         errs = []\<rparr>"
  using NewShader_closed [of ParseFile src f rangeOrder T sortSlice, OF assms(1,2)] assms(3)
  by (simp only: not_True_eq_False if_False simp_thms)

section \<open>Reordered declarations\<close>

lemma isPositionField_tagged: "isPositionField T f \<Longrightarrow> Field_Tag f \<noteq> None"
  by (auto simp: isPositionField_def split: option.splits)

lemma reorderedFields_position:
  assumes "reorderedFields fs fs'"
  shows "lastPosition T fs' p = lastPosition T fs p"
proof -
  have F: "filter (isPositionField T) zs
      = filter (isPositionField T) (filter (\<lambda>f. Field_Tag f \<noteq> None) zs)"
    for zs :: "'a Field list"
    by (induction zs) (auto simp: isPositionField_tagged)
  have t: "filter (\<lambda>f. Field_Tag f \<noteq> None) fs' = filter (\<lambda>f. Field_Tag f \<noteq> None) fs"
    using assms by (simp add: reorderedFields_def)
  have "filter (isPositionField T) fs'
      = filter (isPositionField T) (filter (\<lambda>f. Field_Tag f \<noteq> None) fs')"
    by (rule F)
  also have "\<dots> = filter (isPositionField T) (filter (\<lambda>f. Field_Tag f \<noteq> None) fs)"
    by (simp only: t)
  also have "\<dots> = filter (isPositionField T) fs"
    by (rule F [symmetric])
  finally show ?thesis by (simp add: lastPosition_filter)
qed

lemma reorderedFields_effect:
  assumes "reorderedFields fs fs'"
  shows "position (parseVaryingFields T fs' sh) = position (parseVaryingFields T fs sh)"
    and "mset (varyings (parseVaryingFields T fs' sh)) = mset (varyings (parseVaryingFields T fs sh))"
    and "uniforms (parseVaryingFields T fs' sh) = uniforms (parseVaryingFields T fs sh)"
    and "globals (parseVaryingFields T fs' sh) = globals (parseVaryingFields T fs sh)"
    and "mset (errs (parseVaryingFields T fs' sh)) = mset (errs (parseVaryingFields T fs sh))"
proof -
  have m: "mset fs' = mset fs" using assms by (simp add: reorderedFields_def)
  show "position (parseVaryingFields T fs' sh) = position (parseVaryingFields T fs sh)"
    using assms by (simp add: parseVaryingFields_closed reorderedFields_position)
  show "mset (varyings (parseVaryingFields T fs' sh)) = mset (varyings (parseVaryingFields T fs sh))"
    using mset_concat_map_perm [OF m, of "fieldVaryings T"] by (simp add: parseVaryingFields_closed)
  show "uniforms (parseVaryingFields T fs' sh) = uniforms (parseVaryingFields T fs sh)"
    by (simp add: parseVaryingFields_closed)
  show "globals (parseVaryingFields T fs' sh) = globals (parseVaryingFields T fs sh)"
    by (simp add: parseVaryingFields_closed)
  show "mset (errs (parseVaryingFields T fs' sh)) = mset (errs (parseVaryingFields T fs sh))"
    using mset_concat_map_perm [OF m, of "fieldErrs T"] by (simp add: parseVaryingFields_closed)
qed

lemma reorderedDecl_cases:
  "reorderedDecl d d' \<Longrightarrow>
     d' = d \<or> (\<exists>fs fs'. d = TypeSpec (StructType fs) \<and> d' = TypeSpec (StructType fs')
                  \<and> reorderedFields fs fs')"
  by (cases "(d, d')" rule: reorderedDecl.cases) auto

lemma reorderedEntry_cases:
  assumes "reorderedEntry e e'"
  obtains (same) "e' = e"
  | (struct) fs fs' where "fst e' = fst e" "Kind (snd e') = Kind (snd e)" "Name (snd e') = Name (snd e)"
      "Decl (snd e) = TypeSpec (StructType fs)" "Decl (snd e') = TypeSpec (StructType fs')"
      "reorderedFields fs fs'"
proof -
  from assms have k: "fst e' = fst e" "Kind (snd e') = Kind (snd e)" "Name (snd e') = Name (snd e)"
    and r: "reorderedDecl (Decl (snd e)) (Decl (snd e'))"
    by (simp_all add: reorderedEntry_def)
  from reorderedDecl_cases [OF r] show ?thesis
  proof
    assume "Decl (snd e') = Decl (snd e)"
    with k have "e' = e" by (cases e, cases e') simp
    then show ?thesis by (rule same)
  next
    assume "\<exists>fs fs'. Decl (snd e) = TypeSpec (StructType fs) \<and> Decl (snd e') = TypeSpec (StructType fs')
                  \<and> reorderedFields fs fs'"
    then obtain fs fs' where "Decl (snd e) = TypeSpec (StructType fs)"
      "Decl (snd e') = TypeSpec (StructType fs')" "reorderedFields fs fs'" by blast
    with k show ?thesis by (intro struct [of fs fs'])
  qed
qed

lemma objectEffect_struct:
  assumes "Decl (snd e) = TypeSpec (StructType fs)"
  shows "objectEffect T e =
     (if fst e = varyingStructName then
        (if Kind (snd e) \<noteq> Typ then
           Some (addError (emptyShader T)
                   (Name (snd e) @ '' must be a type but '' @ ObjKind_String (Kind (snd e))))
         else Some (parseVaryingFields T fs (emptyShader T)))
      else if Kind (snd e) = Con \<or> Kind (snd e) = Var then
        Some (addError (emptyShader T) ''value spec expected'')
      else Some (emptyShader T))"
  using assms
  by (cases "Kind (snd e)")
    (simp_all add: objectEffect_def parseObject_def parseVaryingStruct_def
      parsePackageLevelConstant_def parsePackageLevelVariable_def)

lemma reorderedEntry_effect_all:
  assumes "reorderedEntry e e'"
  shows "((objectEffect T e' = None) = (objectEffect T e = None)) \<and>
    mset (objectErrs T e') = mset (objectErrs T e) \<and>
    mset (objectVaryings T e') = mset (objectVaryings T e) \<and>
    mset (objectUniforms T e') = mset (objectUniforms T e) \<and>
    mset (objectGlobals T e') = mset (objectGlobals T e) \<and>
    (\<forall>p. objectPosition T e' p = objectPosition T e p) \<and> fst e' = fst e"
  using assms
proof (cases rule: reorderedEntry_cases)
  case same
  then show ?thesis by simp
next
  case (struct fs fs')
  note r = reorderedFields_effect [OF struct(6), of T "emptyShader T"]
  have 1: "(objectEffect T e' = None) = (objectEffect T e = None)"
    using struct by (simp add: objectEffect_struct)
  have 2: "mset (objectErrs T e') = mset (objectErrs T e)"
    using struct r by (simp add: objectEffect_struct objectErrs_def)
  have 3: "mset (objectVaryings T e') = mset (objectVaryings T e)"
    using struct r by (simp add: objectEffect_struct objectVaryings_def)
  have 4: "mset (objectUniforms T e') = mset (objectUniforms T e)"
    using struct r by (simp add: objectEffect_struct objectUniforms_def)
  have 5: "mset (objectGlobals T e') = mset (objectGlobals T e)"
    using struct r by (simp add: objectEffect_struct objectGlobals_def)
  have 6: "\<forall>p. objectPosition T e' p = objectPosition T e p"
    using struct by (simp add: objectPosition_def reorderedFields_position)
  show ?thesis using 1 2 3 4 5 6 struct(1) by simp
qed

lemma reorderedEntry_effect:
  assumes "reorderedEntry e e'"
  shows "(objectEffect T e' = None) = (objectEffect T e = None)"
    and "mset (objectErrs T e') = mset (objectErrs T e)"
    and "mset (objectVaryings T e') = mset (objectVaryings T e)"
    and "mset (objectUniforms T e') = mset (objectUniforms T e)"
    and "mset (objectGlobals T e') = mset (objectGlobals T e)"
    and "objectPosition T e' p = objectPosition T e p"
    and "fst e' = fst e"
  using reorderedEntry_effect_all [OF assms, of T] by simp_all

lemma reordered_list_effect:
  assumes "list_all2 reorderedEntry xs ys"
  shows "(\<exists>e\<in>set ys. objectEffect T e = None) = (\<exists>e\<in>set xs. objectEffect T e = None)"
    and "mset (concat (map (objectErrs T) ys)) = mset (concat (map (objectErrs T) xs))"
    and "mset (concat (map (objectVaryings T) ys)) = mset (concat (map (objectVaryings T) xs))"
    and "mset (concat (map (objectUniforms T) ys)) = mset (concat (map (objectUniforms T) xs))"
    and "mset (concat (map (objectGlobals T) ys)) = mset (concat (map (objectGlobals T) xs))"
    and "map fst ys = map fst xs"
  using assms
  by (induction xs ys rule: list_all2_induct) (simp_all add: reorderedEntry_effect)

lemma reordered_list_position:
  "list_all2 reorderedEntry xs ys \<Longrightarrow> walkPosition T ys p = walkPosition T xs p"
  by (induction xs ys arbitrary: p rule: list_all2_induct) (simp_all add: reorderedEntry_effect)

section \<open>Two runs on the same source\<close>

text \<open>
  Claim C9, amended. Two runs on the same source, whose \<open>range\<close> statements visit the
  scope map in the orders \<open>r1\<close> and \<open>r2\<close>, have the same kind of outcome. A syntax
  error and a panic are the same in both runs. When the first run returns a ParseError,
  the second returns a ParseError with the same messages up to their order. When the
  first run returns a Shader Model, the second returns a model with the same position,
  varyings and uniforms and with a permutation of the globals, and the two models are
  identical when the names of the globals are distinct.
\<close>

theorem C9_runs_agree_up_to_diagnostic_order:
  assumes "sorts_by_name sortSlice"
    and "\<forall>f. ParseFile src = Inr f \<longrightarrow>
           distinct (map fst (Scope_Objects f))
           \<and> mset (r1 (Scope_Objects f)) = mset (Scope_Objects f)
           \<and> mset (r2 (Scope_Objects f)) = mset (Scope_Objects f)"
  shows "case NewShader ParseFile r1 sortSlice T src of
           ReturnsShader s \<Rightarrow>
             (\<exists>s'. NewShader ParseFile r2 sortSlice T src = ReturnsShader s'
                \<and> position s' = position s \<and> varyings s' = varyings s
                \<and> uniforms s' = uniforms s \<and> mset (globals s') = mset (globals s)
                \<and> (distinct (map name (globals s)) \<longrightarrow> s' = s))
         | ReturnsParseError e1 \<Rightarrow>
             (\<exists>e2. NewShader ParseFile r2 sortSlice T src = ReturnsParseError e2
                \<and> mset e2 = mset e1)
         | ReturnsSyntaxError err \<Rightarrow> NewShader ParseFile r2 sortSlice T src = ReturnsSyntaxError err
         | Panics \<Rightarrow> NewShader ParseFile r2 sortSlice T src = Panics"
proof (cases "ParseFile src")
  case (Inl err)
  then show ?thesis by (simp add: NewShader_def)
next
  case (Inr f)
  let ?es1 = "r1 (Scope_Objects f)" and ?es2 = "r2 (Scope_Objects f)"
  from assms(2) Inr have d: "distinct (map fst (Scope_Objects f))"
    and m1: "mset ?es1 = mset (Scope_Objects f)" and m2: "mset ?es2 = mset (Scope_Objects f)"
    by simp_all
  have d1: "distinct (map fst ?es1)" using d m1 by (metis mset_eq_imp_distinct_iff mset_map)
  have m21: "mset ?es2 = mset ?es1" using m1 m2 by simp
  have set21: "set ?es2 = set ?es1" using m21 by (rule mset_eq_setD)
  show ?thesis
  proof (cases "\<exists>e\<in>set ?es1. objectEffect T e = None")
    case True
    then have "\<exists>e\<in>set ?es2. objectEffect T e = None" using set21 by simp
    with True Inr show ?thesis by (simp add: NewShader_panics)
  next
    case False
    then have np1: "\<forall>e\<in>set ?es1. objectEffect T e \<noteq> None" by simp
    then have np2: "\<forall>e\<in>set ?es2. objectEffect T e \<noteq> None" using set21 by simp
    note c1 = NewShader_closed [of ParseFile src f r1 T sortSlice, OF Inr np1]
    note c2 = NewShader_closed [of ParseFile src f r2 T sortSlice, OF Inr np2]
    let ?E1 = "concat (map (objectErrs T) ?es1)" and ?E2 = "concat (map (objectErrs T) ?es2)"
    have E: "mset ?E2 = mset ?E1" using m21 by (rule mset_concat_map_perm)
    show ?thesis
    proof (cases "?E1 = []")
      case False
      then have "?E2 \<noteq> []" using E by (metis mset_zero_iff)
      with False c1 c2 E show ?thesis by simp
    next
      case True
      then have "mset ?E2 = {#}" using E by (simp only: mset.simps)
      then have E2: "?E2 = []" by (simp only: mset_zero_iff)
      let ?U1 = "concat (map (objectUniforms T) ?es1)" and ?U2 = "concat (map (objectUniforms T) ?es2)"
      let ?G1 = "concat (map (objectGlobals T) ?es1)" and ?G2 = "concat (map (objectGlobals T) ?es2)"
      have P: "walkPosition T ?es2 (zeroVariable T) = walkPosition T ?es1 (zeroVariable T)"
        using d1 m21 by (rule walkPosition_perm)
      have V: "concat (map (objectVaryings T) ?es2) = concat (map (objectVaryings T) ?es1)"
        using d1 m21 by (rule varyings_perm)
      have "mset ?U2 = mset ?U1" using m21 by (rule mset_concat_map_perm)
      moreover have "distinct (map name ?U1)" using d1 by (rule uniforms_distinct)
      ultimately have U: "sortSlice name_less ?U2 = sortSlice name_less ?U1"
        using assms(1) by (intro sortSlice_unique)
      have G: "mset ?G2 = mset ?G1" using m21 by (rule mset_concat_map_perm)
      have sG: "mset (sortSlice name_less ?G1) = mset ?G1" "mset (sortSlice name_less ?G2) = mset ?G2"
        using assms(1) by (simp_all add: sorts_by_name_def)
      have Gd: "sortSlice name_less ?G2 = sortSlice name_less ?G1"
        if "distinct (map name (sortSlice name_less ?G1))"
      proof -
        have "mset (map name (sortSlice name_less ?G1)) = mset (map name ?G1)"
          using sG(1) by (metis mset_map)
        then have "distinct (map name ?G1)" using that by (metis mset_eq_imp_distinct_iff)
        with assms(1) G show ?thesis by (intro sortSlice_unique)
      qed
      show ?thesis using True E2 c1 c2 P V U G sG Gd by simp
    qed
  qed
qed

section \<open>Sorted lists and reordered sources\<close>

text \<open>
  Two files whose scopes hold the same names with reordered declarations: when one
  compiles successfully, so does the other, with the same position and uniforms and
  with permutations of the varyings and of the globals.
\<close>

lemma NewShader_reordered_scopes:
  assumes "sorts_by_name sortSlice"
    and "ParseFile src = Inr f" and "ParseFile src' = Inr f'"
    and "distinct (map fst (Scope_Objects f))"
    and "rel_mset reorderedEntry (mset (Scope_Objects f)) (mset (Scope_Objects f'))"
    and "mset (r (Scope_Objects f)) = mset (Scope_Objects f)"
    and "mset (r' (Scope_Objects f')) = mset (Scope_Objects f')"
    and "NewShader ParseFile r sortSlice T src = ReturnsShader s"
  shows "sorted (map name (varyings s)) \<and> sorted (map name (uniforms s))
     \<and> sorted (map name (globals s))
     \<and> (\<exists>s'. NewShader ParseFile r' sortSlice T src' = ReturnsShader s'
            \<and> position s' = position s \<and> uniforms s' = uniforms s
            \<and> mset (varyings s') = mset (varyings s) \<and> mset (globals s') = mset (globals s)
            \<and> (distinct (map name (varyings s)) \<and> distinct (map name (globals s))
                 \<longrightarrow> s' = s \<and> Dump T s' = Dump T s))"
proof -
  let ?es = "r (Scope_Objects f)" and ?es' = "r' (Scope_Objects f')"
  let ?V = "concat (map (objectVaryings T) ?es)" and ?V' = "concat (map (objectVaryings T) ?es')"
  let ?U = "concat (map (objectUniforms T) ?es)" and ?U' = "concat (map (objectUniforms T) ?es')"
  let ?G = "concat (map (objectGlobals T) ?es)" and ?G' = "concat (map (objectGlobals T) ?es')"
  let ?E = "concat (map (objectErrs T) ?es)" and ?E' = "concat (map (objectErrs T) ?es')"
  from assms(5) have "\<exists>xs ys. mset xs = mset (Scope_Objects f) \<and> mset ys = mset (Scope_Objects f')
      \<and> list_all2 reorderedEntry xs ys"
    by (simp only: rel_mset_def)
  then obtain xs ys where xs: "mset xs = mset (Scope_Objects f)"
    and ys: "mset ys = mset (Scope_Objects f')" and xy: "list_all2 reorderedEntry xs ys"
    by blast
  have mx: "mset xs = mset ?es" using xs assms(6) by simp
  have my: "mset ?es' = mset ys" using ys assms(7) by simp
  have d: "distinct (map fst ?es)" using assms(4,6) by (metis mset_eq_imp_distinct_iff mset_map)
  have "distinct (map fst xs)" using d mx by (metis mset_eq_imp_distinct_iff mset_map)
  then have dy: "distinct (map fst ys)" using reordered_list_effect(6) [OF xy] by simp
  note np = NewShader_success(1) [OF assms(2,8)]
  note E = NewShader_success(2) [OF assms(2,8)]
  note c = NewShader_model [of ParseFile src f r T sortSlice, OF assms(2) np E]
  have "set xs = set ?es" using mx by (rule mset_eq_setD)
  then have "\<not> (\<exists>e\<in>set xs. objectEffect T e = None)" using np by simp
  then have "\<not> (\<exists>e\<in>set ys. objectEffect T e = None)"
    using reordered_list_effect(1) [OF xy, of T] by simp
  moreover have "set ?es' = set ys" using my by (rule mset_eq_setD)
  ultimately have np': "\<forall>e\<in>set ?es'. objectEffect T e \<noteq> None" by simp
  have "mset ?E' = mset (concat (map (objectErrs T) ys))"
    using my by (rule mset_concat_map_perm)
  also have "\<dots> = mset (concat (map (objectErrs T) xs))"
    using xy by (rule reordered_list_effect(2))
  also have "\<dots> = mset ?E" using mx by (rule mset_concat_map_perm)
  finally have "mset ?E' = mset ?E" .
  then have "mset ?E' = {#}" using E by (simp only: mset.simps)
  then have E': "?E' = []" by (simp only: mset_zero_iff)
  have "mset ?V' = mset (concat (map (objectVaryings T) ys))"
    using my by (rule mset_concat_map_perm)
  also have "\<dots> = mset (concat (map (objectVaryings T) xs))"
    using xy by (rule reordered_list_effect(3))
  also have "\<dots> = mset ?V" using mx by (rule mset_concat_map_perm)
  finally have V: "mset ?V' = mset ?V" .
  have "mset ?U' = mset (concat (map (objectUniforms T) ys))"
    using my by (rule mset_concat_map_perm)
  also have "\<dots> = mset (concat (map (objectUniforms T) xs))"
    using xy by (rule reordered_list_effect(4))
  also have "\<dots> = mset ?U" using mx by (rule mset_concat_map_perm)
  finally have U: "mset ?U' = mset ?U" .
  have "mset ?G' = mset (concat (map (objectGlobals T) ys))"
    using my by (rule mset_concat_map_perm)
  also have "\<dots> = mset (concat (map (objectGlobals T) xs))"
    using xy by (rule reordered_list_effect(5))
  also have "\<dots> = mset ?G" using mx by (rule mset_concat_map_perm)
  finally have G: "mset ?G' = mset ?G" .
  have "walkPosition T ?es' (zeroVariable T) = walkPosition T ys (zeroVariable T)"
    using dy my by (rule walkPosition_perm)
  also have "\<dots> = walkPosition T xs (zeroVariable T)"
    using xy by (rule reordered_list_position)
  also have "\<dots> = walkPosition T ?es (zeroVariable T)"
    using d mx by (rule walkPosition_perm)
  finally have P: "walkPosition T ?es' (zeroVariable T) = walkPosition T ?es (zeroVariable T)" .
  let ?s = "\<lparr>position = walkPosition T ?es (zeroVariable T),
      varyings = sortSlice name_less ?V, uniforms = sortSlice name_less ?U,
      globals = sortSlice name_less ?G, errs = []\<rparr>"
  have "ReturnsShader s = ReturnsShader ?s" using assms(8) [symmetric] c by (rule trans)
  then have s: "s = ?s" by (simp only: Outcome.inject)
  have sv: "varyings s = sortSlice name_less ?V" and su: "uniforms s = sortSlice name_less ?U"
    and sg: "globals s = sortSlice name_less ?G"
    and sp: "position s = walkPosition T ?es (zeroVariable T)"
    by (simp_all add: s)
  let ?s' = "\<lparr>position = walkPosition T ?es' (zeroVariable T),
      varyings = sortSlice name_less ?V', uniforms = sortSlice name_less ?U',
      globals = sortSlice name_less ?G', errs = []\<rparr>"
  have s': "NewShader ParseFile r' sortSlice T src' = ReturnsShader ?s'"
    using assms(3) np' E' by (rule NewShader_model)
  have srt: "\<And>zs. mset (sortSlice name_less zs) = mset zs"
    "\<And>zs. sorted (map name (sortSlice name_less zs))"
    using assms(1) by (simp_all add: sorts_by_name_def)
  have Us: "sortSlice name_less ?U' = sortSlice name_less ?U"
    using assms(1) U uniforms_distinct [OF d, of T] by (rule sortSlice_unique)
  have Vs: "sortSlice name_less ?V' = sortSlice name_less ?V" if "distinct (map name (varyings s))"
  proof -
    have "distinct (map name ?V)" using assms(1) that unfolding sv by (rule distinct_names_sorted)
    with assms(1) V show ?thesis by (rule sortSlice_unique)
  qed
  have Gs: "sortSlice name_less ?G' = sortSlice name_less ?G" if "distinct (map name (globals s))"
  proof -
    have "distinct (map name ?G)" using assms(1) that unfolding sg by (rule distinct_names_sorted)
    with assms(1) G show ?thesis by (rule sortSlice_unique)
  qed
  have 1: "sorted (map name (varyings s)) \<and> sorted (map name (uniforms s))
     \<and> sorted (map name (globals s))"
    by (simp only: sv su sg srt(2))
  have 2: "position ?s' = position s \<and> uniforms ?s' = uniforms s
      \<and> mset (varyings ?s') = mset (varyings s) \<and> mset (globals ?s') = mset (globals s)"
    by (simp add: sp su sv sg P Us V G srt(1))
  have 3: "?s' = s \<and> Dump T ?s' = Dump T s"
    if "distinct (map name (varyings s)) \<and> distinct (map name (globals s))"
  proof -
    have "sortSlice name_less ?V' = sortSlice name_less ?V"
      and "sortSlice name_less ?G' = sortSlice name_less ?G"
      using that Vs Gs by blast+
    then have "?s' = ?s" using P Us by simp
    then have "?s' = s" by (simp only: s)
    then show ?thesis by simp
  qed
  show ?thesis
  proof (intro conjI)
    show "sorted (map name (varyings s))" "sorted (map name (uniforms s))"
      "sorted (map name (globals s))" using 1 by simp_all
    show "\<exists>s'. NewShader ParseFile r' sortSlice T src' = ReturnsShader s'
            \<and> position s' = position s \<and> uniforms s' = uniforms s
            \<and> mset (varyings s') = mset (varyings s) \<and> mset (globals s') = mset (globals s)
            \<and> (distinct (map name (varyings s)) \<and> distinct (map name (globals s))
                 \<longrightarrow> s' = s \<and> Dump T s' = Dump T s)"
    proof (rule exI [of _ ?s'], intro conjI impI)
      show "NewShader ParseFile r' sortSlice T src' = ReturnsShader ?s'" by (rule s')
      show "position ?s' = position s" "uniforms ?s' = uniforms s"
        "mset (varyings ?s') = mset (varyings s)" "mset (globals ?s') = mset (globals s)"
        using 2 by blast+
    next
      assume "distinct (map name (varyings s)) \<and> distinct (map name (globals s))"
      then show "?s' = s" using 3 by blast
    next
      assume "distinct (map name (varyings s)) \<and> distinct (map name (globals s))"
      then show "Dump T ?s' = Dump T s" using 3 by blast
    qed
  qed
qed

text \<open>The lists of a returned model are sorted, whatever the source is.\<close>

lemma NewShader_sorted:
  assumes "sorts_by_name sortSlice"
    and "NewShader ParseFile r sortSlice T src = ReturnsShader s"
  shows "sorted (map name (varyings s))" and "sorted (map name (uniforms s))"
    and "sorted (map name (globals s))"
proof -
  from assms(2) obtain s0 where
    s: "s = s0\<lparr>varyings := sortSlice name_less (varyings s0),
                uniforms := sortSlice name_less (uniforms s0),
                globals := sortSlice name_less (globals s0)\<rparr>"
    by (auto simp: NewShader_def split: sum.splits option.splits if_splits)
  have srt: "\<And>zs. sorted (map name (sortSlice name_less zs))"
    using assms(1) by (simp add: sorts_by_name_def)
  show "sorted (map name (varyings s))" and "sorted (map name (uniforms s))"
    and "sorted (map name (globals s))"
    by (simp_all add: s srt)
qed

text \<open>When no name is declared twice, the scope holds every declaration.\<close>

lemma declareAll_distinct: "distinct (map fst ds) \<Longrightarrow> declareAll ds = ds"
proof (induction ds)
  case Nil
  show ?case by simp
next
  case (Cons d ds)
  then have "fst d \<notin> fst ` set ds" by simp
  then have "\<forall>e\<in>set ds. fst e \<noteq> fst d" by (metis imageI)
  then have "filter (\<lambda>e. fst e \<noteq> fst d) ds = ds" by (simp add: filter_id_conv)
  with Cons show ?case by simp
qed

lemma reorderedDeclarations_names:
  assumes "reorderedDeclarations ds ds'"
  shows "mset (map fst ds') = mset (map fst ds)"
proof -
  from assms obtain xs ys where xs: "mset xs = mset ds" and ys: "mset ys = mset ds'"
    and xy: "list_all2 reorderedEntry xs ys"
    unfolding reorderedDeclarations_def rel_mset_def by blast
  have "map fst ys = map fst xs" using xy by (rule reordered_list_effect(6))
  moreover have "mset (map fst xs) = mset (map fst ds)" using xs by (metis mset_map)
  moreover have "mset (map fst ys) = mset (map fst ds')" using ys by (metis mset_map)
  ultimately show ?thesis by simp
qed

text \<open>
  Claim C2, amended. After a successful compile the varyings, the uniforms and the
  globals are each sorted by name ascending. Let \<open>ds\<close> be the package-level declarations
  of the source in textual order and \<open>ds'\<close> those of a second source, a reordering of
  \<open>ds\<close>, and let no name be declared twice in \<open>ds\<close>. Then the second source, with its
  scope map visited in any order, compiles successfully as well, with the same position
  and uniforms and with permutations of the varyings and of the globals; when the names
  of the varyings and the names of the globals of the model are distinct, the Shader
  Model is identical and so is the Dump text.
\<close>

theorem C2_sorted_and_order_independent:
  assumes "sorts_by_name sortSlice"
    and "NewShader ParseFile r sortSlice T src = ReturnsShader s"
  shows "sorted (map name (varyings s)) \<and> sorted (map name (uniforms s))
     \<and> sorted (map name (globals s))
     \<and> (\<forall>f f' ds ds' src' r'.
           ParseFile src = Inr f \<and> ParseFile src' = Inr f'
           \<and> mset (Scope_Objects f) = mset (declareAll ds)
           \<and> mset (Scope_Objects f') = mset (declareAll ds')
           \<and> reorderedDeclarations ds ds' \<and> distinct (map fst ds)
           \<and> mset (r (Scope_Objects f)) = mset (Scope_Objects f)
           \<and> mset (r' (Scope_Objects f')) = mset (Scope_Objects f')
           \<longrightarrow>
           (\<exists>s'. NewShader ParseFile r' sortSlice T src' = ReturnsShader s'
              \<and> position s' = position s \<and> uniforms s' = uniforms s
              \<and> mset (varyings s') = mset (varyings s) \<and> mset (globals s') = mset (globals s)
              \<and> (distinct (map name (varyings s)) \<and> distinct (map name (globals s))
                   \<longrightarrow> s' = s \<and> Dump T s' = Dump T s)))"
proof (intro conjI allI impI)
  show "sorted (map name (varyings s))" "sorted (map name (uniforms s))"
    "sorted (map name (globals s))"
    using assms by (rule NewShader_sorted)+
next
  fix f f' ds ds' src' r'
  assume a: "ParseFile src = Inr f \<and> ParseFile src' = Inr f'
           \<and> mset (Scope_Objects f) = mset (declareAll ds)
           \<and> mset (Scope_Objects f') = mset (declareAll ds')
           \<and> reorderedDeclarations ds ds' \<and> distinct (map fst ds)
           \<and> mset (r (Scope_Objects f)) = mset (Scope_Objects f)
           \<and> mset (r' (Scope_Objects f')) = mset (Scope_Objects f')"
  then have pf: "ParseFile src = Inr f" and pf': "ParseFile src' = Inr f'"
    and sc: "mset (Scope_Objects f) = mset (declareAll ds)"
    and sc': "mset (Scope_Objects f') = mset (declareAll ds')"
    and re: "reorderedDeclarations ds ds'" and d: "distinct (map fst ds)"
    and ro: "mset (r (Scope_Objects f)) = mset (Scope_Objects f)"
    and ro': "mset (r' (Scope_Objects f')) = mset (Scope_Objects f')"
    by simp_all
  have "mset (map fst ds') = mset (map fst ds)" using re by (rule reorderedDeclarations_names)
  then have d': "distinct (map fst ds')" using d by (metis mset_eq_imp_distinct_iff)
  have m: "mset (Scope_Objects f) = mset ds" using sc d by (simp add: declareAll_distinct)
  have m': "mset (Scope_Objects f') = mset ds'" using sc' d' by (simp add: declareAll_distinct)
  have "mset (map fst (Scope_Objects f)) = mset (map fst ds)" using m by (metis mset_map)
  then have df: "distinct (map fst (Scope_Objects f))" using d by (metis mset_eq_imp_distinct_iff)
  have rel: "rel_mset reorderedEntry (mset (Scope_Objects f)) (mset (Scope_Objects f'))"
    using re by (simp only: reorderedDeclarations_def m m')
  show "\<exists>s'. NewShader ParseFile r' sortSlice T src' = ReturnsShader s'
              \<and> position s' = position s \<and> uniforms s' = uniforms s
              \<and> mset (varyings s') = mset (varyings s) \<and> mset (globals s') = mset (globals s)
              \<and> (distinct (map name (varyings s)) \<and> distinct (map name (globals s))
                   \<longrightarrow> s' = s \<and> Dump T s' = Dump T s)"
    using NewShader_reordered_scopes [where sortSlice = sortSlice and ParseFile = ParseFile
        and src = src and src' = src' and f = f and f' = f' and r = r and r' = r' and T = T
        and s = s, OF assms(1) pf pf' df rel ro ro' assms(2)]
    by (rule conjunct2 [THEN conjunct2, THEN conjunct2])
qed

section \<open>Concrete runs in two visiting orders\<close>

lemma scenario_runs:
  "NewShader example_ParseFile (\<lambda>es. es) insertionSort kage_types scenario_source
     = ReturnsShader example_model"
  by (simp add: NewShader_def example_ParseFile_simps scenario_file_def example_model_def run_simps)

lemma two_errors_run:
  "NewShader example_ParseFile (\<lambda>es. es) insertionSort kage_types two_errors_source
     = ReturnsParseError [''unexpected type: vec5'', ''unexpected type: vec6'']"
  by (simp add: NewShader_def example_ParseFile_simps two_errors_file_def run_simps)

text \<open>
  Claim C9, as stated, promises identical ParseError message sequences, order included,
  for two runs on identical source bytes. The source with two variables of unknown
  types has two scope entries; a run that visits them in one order and a run that
  visits them in the other order return the two messages in different orders. Go
  leaves the order in which \<open>range\<close> visits a map unspecified, and \<open>parse\<close> records
  the diagnostics in that order.
\<close>

theorem C9_counterexample:
  "NewShader example_ParseFile (\<lambda>es. es) insertionSort kage_types two_errors_source
     = ReturnsParseError [''unexpected type: vec5'', ''unexpected type: vec6'']
   \<and> NewShader example_ParseFile rev insertionSort kage_types two_errors_source
     = ReturnsParseError [''unexpected type: vec6'', ''unexpected type: vec5'']
   \<and> NewShader example_ParseFile (\<lambda>es. es) insertionSort kage_types two_errors_source
     \<noteq> NewShader example_ParseFile rev insertionSort kage_types two_errors_source"
  by (simp add: NewShader_def example_ParseFile_simps two_errors_file_def run_simps)

text \<open>
  The scenario visited in reverse order compiles to the same model, and the source with
  two faults visited in reverse order returns the same two messages.
\<close>

theorem C9_runs_agree_up_to_diagnostic_order_witness:
  "NewShader example_ParseFile rev insertionSort kage_types scenario_source
     = ReturnsShader example_model
   \<and> (\<exists>e2. NewShader example_ParseFile rev insertionSort kage_types two_errors_source
              = ReturnsParseError e2
          \<and> mset e2 = mset [''unexpected type: vec5'', ''unexpected type: vec6''])"
proof
  have h: "\<forall>f. example_ParseFile scenario_source = Inr f \<longrightarrow>
           distinct (map fst (Scope_Objects f))
           \<and> mset (Scope_Objects f) = mset (Scope_Objects f)
           \<and> mset (rev (Scope_Objects f)) = mset (Scope_Objects f)"
    by (simp add: example_ParseFile_simps) (auto simp: scenario_file_def)
  have g: "distinct (map name (globals example_model))" by (simp add: example_model_def)
  from C9_runs_agree_up_to_diagnostic_order [where sortSlice = insertionSort
      and ParseFile = example_ParseFile and src = scenario_source and ?r1.0 = "\<lambda>es. es"
      and ?r2.0 = rev and T = kage_types, OF sorts_by_name_insertionSort h]
  show "NewShader example_ParseFile rev insertionSort kage_types scenario_source
     = ReturnsShader example_model"
    using g by (simp add: scenario_runs)
next
  have h: "\<forall>f. example_ParseFile two_errors_source = Inr f \<longrightarrow>
           distinct (map fst (Scope_Objects f))
           \<and> mset (Scope_Objects f) = mset (Scope_Objects f)
           \<and> mset (rev (Scope_Objects f)) = mset (Scope_Objects f)"
    by (simp add: example_ParseFile_simps) (auto simp: two_errors_file_def)
  from C9_runs_agree_up_to_diagnostic_order [where sortSlice = insertionSort
      and ParseFile = example_ParseFile and src = two_errors_source and ?r1.0 = "\<lambda>es. es"
      and ?r2.0 = rev and T = kage_types, OF sorts_by_name_insertionSort h]
  show "\<exists>e2. NewShader example_ParseFile rev insertionSort kage_types two_errors_source
              = ReturnsParseError e2
          \<and> mset e2 = mset [''unexpected type: vec5'', ''unexpected type: vec6'']"
    by (simp add: two_errors_run)
qed

text \<open>
  Claim C2, as stated, promises an identical Shader Model after re-ordering the
  declarations. The struct with the fields \<^verbatim>\<open>A vec2; A vec3\<close> and the struct with the two
  field declarations exchanged compile to different models: the two varyings have the
  same name, and the sort keeps them in the order of the field list. The source
  \<^verbatim>\<open>var A vec2; var A vec3\<close> and the source with the two declarations exchanged compile
  to different models as well: only the first declaration of \<open>A\<close> is in the scope.
\<close>

theorem C2_counterexample:
  "NewShader example_ParseFile (\<lambda>es. es) insertionSort kage_types duplicate_fields_source
     = ReturnsShader
         \<lparr>position = \<lparr>name = [], typ = TFloat, constant = False, init = []\<rparr>,
          varyings = [\<lparr>name = ''A'', typ = TVec2, constant = False, init = []\<rparr>,
                      \<lparr>name = ''A'', typ = TVec3, constant = False, init = []\<rparr>],
          uniforms = [], globals = [], errs = []\<rparr>
   \<and> NewShader example_ParseFile (\<lambda>es. es) insertionSort kage_types exchanged_fields_source
     = ReturnsShader
         \<lparr>position = \<lparr>name = [], typ = TFloat, constant = False, init = []\<rparr>,
          varyings = [\<lparr>name = ''A'', typ = TVec3, constant = False, init = []\<rparr>,
                      \<lparr>name = ''A'', typ = TVec2, constant = False, init = []\<rparr>],
          uniforms = [], globals = [], errs = []\<rparr>
   \<and> NewShader example_ParseFile (\<lambda>es. es) insertionSort kage_types duplicate_fields_source
     \<noteq> NewShader example_ParseFile (\<lambda>es. es) insertionSort kage_types exchanged_fields_source
   \<and> NewShader example_ParseFile (\<lambda>es. es) insertionSort kage_types redeclared_source
     = ReturnsShader
         \<lparr>position = \<lparr>name = [], typ = TFloat, constant = False, init = []\<rparr>,
          varyings = [],
          uniforms = [\<lparr>name = ''A'', typ = TVec2, constant = False, init = []\<rparr>],
          globals = [], errs = []\<rparr>
   \<and> NewShader example_ParseFile (\<lambda>es. es) insertionSort kage_types
         exchanged_redeclared_source
     = ReturnsShader
         \<lparr>position = \<lparr>name = [], typ = TFloat, constant = False, init = []\<rparr>,
          varyings = [],
          uniforms = [\<lparr>name = ''A'', typ = TVec3, constant = False, init = []\<rparr>],
          globals = [], errs = []\<rparr>
   \<and> NewShader example_ParseFile (\<lambda>es. es) insertionSort kage_types redeclared_source
     \<noteq> NewShader example_ParseFile (\<lambda>es. es) insertionSort kage_types
         exchanged_redeclared_source"
  by (simp add: NewShader_def example_ParseFile_simps duplicate_fields_file_def
      exchanged_fields_file_def redeclared_file_def exchanged_redeclared_file_def run_simps)

text \<open>
  The declarations of the reordered scenario are a reordering of those of the scenario,
  and no name is declared twice, so that each scope holds all declarations.
\<close>

lemma reorderedDecl_refl: "reorderedDecl d d"
  by (cases "(d, d)" rule: reorderedDecl.cases) (auto simp: reorderedFields_def)

lemma reordered_scenario:
  "reorderedDeclarations (Scope_Objects scenario_file) (Scope_Objects reordered_scenario_file)"
proof -
  have "list_all2 reorderedEntry (Scope_Objects scenario_file)
      (rev (Scope_Objects reordered_scenario_file))"
    by (simp add: scenario_file_def reordered_scenario_file_def reorderedEntry_def
        struct_object_def reorderedFields_def reorderedDecl_refl)
  moreover have "mset (rev (Scope_Objects reordered_scenario_file))
      = mset (Scope_Objects reordered_scenario_file)" by (rule mset_rev)
  ultimately show ?thesis unfolding reorderedDeclarations_def rel_mset_def by blast
qed

lemma scenario_declared:
  "declareAll (Scope_Objects scenario_file) = Scope_Objects scenario_file"
  "declareAll (Scope_Objects reordered_scenario_file) = Scope_Objects reordered_scenario_file"
  by (simp_all add: declareAll_distinct scenario_file_def reordered_scenario_file_def)

text \<open>
  The scenario compiles to its model, whose lists are sorted by name, and the reordered
  scenario, visited in reverse order, compiles to the same model.
\<close>

theorem C2_sorted_and_order_independent_witness:
  "NewShader example_ParseFile (\<lambda>es. es) insertionSort kage_types scenario_source
     = ReturnsShader example_model
   \<and> reorderedDeclarations (Scope_Objects scenario_file) (Scope_Objects reordered_scenario_file)
   \<and> distinct (map fst (Scope_Objects scenario_file))
   \<and> sorted (map name (varyings example_model)) \<and> sorted (map name (uniforms example_model))
   \<and> sorted (map name (globals example_model))
   \<and> NewShader example_ParseFile rev insertionSort kage_types reordered_scenario_source
     = ReturnsShader example_model"
proof -
  note th = C2_sorted_and_order_independent [where sortSlice = insertionSort
      and ParseFile = example_ParseFile and src = scenario_source and r = "\<lambda>es. es"
      and T = kage_types and s = example_model, OF sorts_by_name_insertionSort scenario_runs]
  have d: "distinct (map fst (Scope_Objects scenario_file))" by (simp add: scenario_file_def)
  have n: "distinct (map name (varyings example_model)) \<and> distinct (map name (globals example_model))"
    by (simp add: example_model_def)
  have srt: "sorted (map name (varyings example_model))" "sorted (map name (uniforms example_model))"
    "sorted (map name (globals example_model))"
    using th by simp_all
  have pre: "example_ParseFile scenario_source = Inr scenario_file
      \<and> example_ParseFile reordered_scenario_source = Inr reordered_scenario_file
      \<and> mset (Scope_Objects scenario_file) = mset (declareAll (Scope_Objects scenario_file))
      \<and> mset (Scope_Objects reordered_scenario_file)
          = mset (declareAll (Scope_Objects reordered_scenario_file))
      \<and> reorderedDeclarations (Scope_Objects scenario_file) (Scope_Objects reordered_scenario_file)
      \<and> distinct (map fst (Scope_Objects scenario_file))
      \<and> mset (Scope_Objects scenario_file) = mset (Scope_Objects scenario_file)
      \<and> mset (rev (Scope_Objects reordered_scenario_file))
          = mset (Scope_Objects reordered_scenario_file)"
    using d reordered_scenario
    by (simp add: example_ParseFile_simps scenario_declared)
  note imp = th [THEN conjunct2, THEN conjunct2, THEN conjunct2, rule_format]
  from imp [where f = scenario_file and f' = reordered_scenario_file
      and ds = "Scope_Objects scenario_file" and ds' = "Scope_Objects reordered_scenario_file"
      and src' = reordered_scenario_source and r' = rev, OF pre] n
  have "NewShader example_ParseFile rev insertionSort kage_types reordered_scenario_source
     = ReturnsShader example_model"
    by auto
  then show ?thesis using srt d reordered_scenario scenario_runs by simp
qed

section \<open>A panic of the classifier\<close>

text \<open>
  The theorem for claim C1 leaves out the sources on which the classifier panics. There
  are such sources: for a constant declaration with more values than names the loop of
  \<open>parsePackageLevelConstant\<close> reads \<open>vs.Names[i]\<close> beyond the end of the slice.
\<close>

lemma NewShader_panics_on_extra_value:
  "NewShader example_ParseFile (\<lambda>es. es) insertionSort kage_types extra_value_source = Panics"
  by (simp add: NewShader_def example_ParseFile_simps extra_value_file_def extra_value_spec_def
      run_simps)

end
